(* ===== verification/Prelude.thy ===== *)
theory Prelude
  imports Main
begin

text \<open>
  Shared vocabulary of the development: the names of the model's basic types,
  the collections of rewrite rules the component theories register their
  execution equations in, and generic lemmas on lists and strings that several
  components use.  Python strings are modelled as HOL strings (lists of 8-bit
  \<open>char\<close>s); every non-ASCII character of the scripts is a Latin-1 code point
  below 256 (\<open>CHR 0xC1\<close> for the capital A with acute accent, and so on), so a
  Python \<open>str\<close> of these scripts is exactly one HOL \<open>char\<close> per code point.
\<close>

type_synonym url = string
type_synonym path = string

named_theorems py_simps
  "execution equations of the Python control-flow combinators"
named_theorems pw_simps
  "execution equations of the modelled Playwright calls"
named_theorems emits_intros
  "which events a statement may append to the trace"
named_theorems no_return_intros
  "statements that never end in a return"

subsection \<open>Latin-1 letters used by the scripts\<close>

abbreviation A_acute :: char where "A_acute \<equiv> CHR 0xC1"
abbreviation a_acute :: char where "a_acute \<equiv> CHR 0xE1"
abbreviation c_cedil :: char where "c_cedil \<equiv> CHR 0xE7"
abbreviation o_tilde :: char where "o_tilde \<equiv> CHR 0xF5"
abbreviation o_acute :: char where "o_acute \<equiv> CHR 0xF3"
abbreviation e_circ :: char where "e_circ \<equiv> CHR 0xEA"
abbreviation u_acute :: char where "u_acute \<equiv> CHR 0xFA"

subsection \<open>Generic lemmas\<close>

text \<open>A string that ends with a given suffix, written as the code's tests read it.\<close>

definition ends_with :: "string \<Rightarrow> string \<Rightarrow> bool" where
  "ends_with suf s \<longleftrightarrow>
     length suf \<le> length s \<and> drop (length s - length suf) s = suf"

lemma ends_with_iff: "ends_with suf s \<longleftrightarrow> (\<exists>p. s = p @ suf)"
proof
  assume h: "ends_with suf s"
  then have "s = take (length s - length suf) s @ suf"
    by (metis append_take_drop_id ends_with_def)
  then show "\<exists>p. s = p @ suf" by blast
next
  assume "\<exists>p. s = p @ suf"
  then show "ends_with suf s" by (auto simp: ends_with_def)
qed

lemma ends_with_append [simp]: "ends_with suf (p @ suf)"
  by (auto simp: ends_with_iff)

text \<open>Of two suffixes of one string, the shorter is a suffix of the longer.\<close>

lemma ends_with_both:
  assumes "ends_with x u" and "ends_with y u" and "length y \<le> length x"
  shows "ends_with y x"
proof -
  from assms(1) obtain p where px: "u = p @ x" by (auto simp: ends_with_iff)
  from assms(2) obtain q where qy: "u = q @ y" by (auto simp: ends_with_iff)
  from qy px have "drop (length u - length y) (p @ x) = y" by simp
  with assms(3) have "drop (length x - length y) x = y" using px by simp
  with assms(3) show ?thesis by (simp add: ends_with_def)
qed

end
