(* ===== verification/Python.thy ===== *)
theory Python
  imports Prelude
begin

text \<open>
  The part of Python's statement semantics the three scripts use, as a shallow
  embedding: a statement is a function from a state to an \<open>outcome\<close>, which is
  normal completion (\<open>Ok\<close>), a \<open>return\<close> on its way to the enclosing function
  (\<open>Ret\<close>), or an exception on its way to a handler (\<open>Exc\<close>).  Each carries the
  state at that point, because an exception does not undo the effects made
  before it (a screenshot written, a line printed).  Combinators give sequencing,
  \<open>try\<close>/\<open>except\<close>, \<open>try\<close>/\<open>except\<close>/\<open>finally\<close>, the \<open>with\<close> statement and the
  function-call boundary, with the rules of the Python language reference
  (a \<open>finally\<close> block runs on every exit and an exception it raises replaces
  the pending one).
\<close>

datatype exn =
    PwError string     \<comment> \<open>\<open>playwright.sync_api.Error\<close>\<close>
  | PwTimeout string   \<comment> \<open>\<open>playwright.sync_api.TimeoutError\<close>\<close>
  | AssertFailed string \<comment> \<open>\<open>AssertionError\<close> raised by \<open>expect\<close>\<close>

text \<open>\<open>str(e)\<close>, as the f-strings of the scripts print it.\<close>

fun exn_str :: "exn \<Rightarrow> string" where
  "exn_str (PwError m) = m"
| "exn_str (PwTimeout m) = m"
| "exn_str (AssertFailed m) = m"

datatype 's outcome = Ok 's | Ret 's | Exc exn 's

type_synonym 's stmt = "'s \<Rightarrow> 's outcome"

primrec final :: "'s outcome \<Rightarrow> 's" where
  "final (Ok s) = s"
| "final (Ret s) = s"
| "final (Exc e s) = s"

primrec is_exc :: "'s outcome \<Rightarrow> bool" where
  "is_exc (Ok s) = False"
| "is_exc (Ret s) = False"
| "is_exc (Exc e s) = True"

primrec map_outcome :: "('s \<Rightarrow> 's) \<Rightarrow> 's outcome \<Rightarrow> 's outcome" where
  "map_outcome f (Ok s) = Ok (f s)"
| "map_outcome f (Ret s) = Ret (f s)"
| "map_outcome f (Exc e s) = Exc e (f s)"

subsection \<open>Statements\<close>

text \<open>A block: each statement runs from the state the previous one left, and a
  \<open>return\<close> or an exception skips the rest of the block.\<close>

fun seqs :: "'s stmt list \<Rightarrow> 's stmt" where
  "seqs [] s = Ok s"
| "seqs (f # fs) s = (case f s of Ok s' \<Rightarrow> seqs fs s' | r \<Rightarrow> r)"

definition return :: "'s stmt" where
  "return s = Ret s"

definition raise :: "exn \<Rightarrow> 's stmt" where
  "raise e s = Exc e s"

text \<open>\<open>try: body except Exception as e: handler(e)\<close>.  Every exception the
  model raises is an \<open>Exception\<close>, so the handler catches all of them.\<close>

definition try_except :: "'s stmt \<Rightarrow> (exn \<Rightarrow> 's stmt) \<Rightarrow> 's stmt" where
  "try_except body handler s =
     (case body s of Exc e s' \<Rightarrow> handler e s' | r \<Rightarrow> r)"

text \<open>Leaving a \<open>finally\<close> block: the block runs; if it completes normally the
  pending outcome continues, otherwise its own outcome replaces it.\<close>

definition run_finally :: "'s stmt \<Rightarrow> 's outcome \<Rightarrow> 's outcome" where
  "run_finally fin r =
     (case fin (final r) of
        Ok s' \<Rightarrow> (case r of Ok _ \<Rightarrow> Ok s' | Ret _ \<Rightarrow> Ret s' | Exc e _ \<Rightarrow> Exc e s')
      | r' \<Rightarrow> r')"

definition try_except_finally ::
  "'s stmt \<Rightarrow> (exn \<Rightarrow> 's stmt) \<Rightarrow> 's stmt \<Rightarrow> 's stmt" where
  "try_except_finally body handler fin s =
     run_finally fin (try_except body handler s)"

text \<open>The boundary of a function call: a \<open>return\<close> ends there and the caller
  continues normally (the scripts' functions return \<open>None\<close>).\<close>

definition call_fn :: "'s stmt \<Rightarrow> 's stmt" where
  "call_fn body s = (case body s of Ret s' \<Rightarrow> Ok s' | r \<Rightarrow> r)"

text \<open>\<open>with cm: body\<close> for a context manager whose \<open>__enter__\<close> is \<open>enter\<close>
  and whose \<open>__exit__\<close> is \<open>leave\<close> and never suppresses an exception: the exit
  runs on normal completion, on \<open>return\<close> and on an exception alike.\<close>

definition with_stmt :: "('s \<Rightarrow> 's) \<Rightarrow> ('s \<Rightarrow> 's) \<Rightarrow> 's stmt \<Rightarrow> 's stmt" where
  "with_stmt enter leave body s = map_outcome leave (body (enter s))"

text \<open>The process exit status of \<open>python script.py\<close>: 0 when the entry point
  completes, 1 when an exception escapes (the interpreter prints the traceback).\<close>

primrec exit_status :: "'s outcome \<Rightarrow> nat" where
  "exit_status (Ok s) = 0"
| "exit_status (Ret s) = 0"
| "exit_status (Exc e s) = 1"

subsection \<open>Execution lemmas\<close>

lemma seqs_append [py_simps]:
  "seqs (fs @ gs) s = (case seqs fs s of Ok s' \<Rightarrow> seqs gs s' | r \<Rightarrow> r)"
  by (induction fs arbitrary: s) (auto split: outcome.splits)

lemma seqs_Cons_Ok [py_simps]: "f s = Ok s' \<Longrightarrow> seqs (f # fs) s = seqs fs s'"
  by simp

lemma seqs_Cons_Exc [py_simps]: "f s = Exc e s' \<Longrightarrow> seqs (f # fs) s = Exc e s'"
  by simp

lemma seqs_Cons_Ret [py_simps]: "f s = Ret s' \<Longrightarrow> seqs (f # fs) s = Ret s'"
  by simp

lemma seqs_Cons_eq_Ok:
  "seqs (f # fs) s = Ok s' \<longleftrightarrow> (\<exists>s1. f s = Ok s1 \<and> seqs fs s1 = Ok s')"
  by (cases "f s") simp_all

lemma try_except_Ok [py_simps]: "body s = Ok s' \<Longrightarrow> try_except body h s = Ok s'"
  by (simp add: try_except_def)

lemma try_except_Exc [py_simps]: "body s = Exc e s' \<Longrightarrow> try_except body h s = h e s'"
  by (simp add: try_except_def)

lemma with_stmt_final [py_simps]:
  "final (with_stmt enter leave body s) = leave (final (body (enter s)))"
  by (cases "body (enter s)") (simp_all add: with_stmt_def)

lemma with_stmt_is_exc [py_simps]:
  "is_exc (with_stmt enter leave body s) = is_exc (body (enter s))"
  by (cases "body (enter s)") (simp_all add: with_stmt_def)

lemma call_fn_final [py_simps]: "final (call_fn body s) = final (body s)"
  by (cases "body s") (simp_all add: call_fn_def)

lemma call_fn_is_exc [py_simps]: "is_exc (call_fn body s) = is_exc (body s)"
  by (cases "body s") (simp_all add: call_fn_def)

lemma call_fn_never_Ret: "call_fn body s \<noteq> Ret s'"
  by (simp add: call_fn_def split: outcome.splits)

lemma seqs_single [simp]: "seqs [f] s = f s"
  by (cases "f s") simp_all

lemma final_map_outcome [simp]: "final (map_outcome f r) = f (final r)"
  by (cases r) simp_all

lemma is_exc_map_outcome [simp]: "is_exc (map_outcome f r) = is_exc r"
  by (cases r) simp_all

text \<open>Whatever the pending outcome, the state after a \<open>finally\<close> block is the one
  the block leaves.\<close>

lemma final_run_finally [py_simps]: "final (run_finally fin r) = final (fin (final r))"
  by (simp add: run_finally_def split: outcome.split)

text \<open>A \<open>finally\<close> block whose statements cannot raise leaves the pending kind of
  outcome (normal, return, exception) as it was, and its effect is on the state.\<close>

lemma run_finally_total:
  assumes "\<And>s. fin s = Ok (g s)"
  shows "run_finally fin r = map_outcome g r"
  using assms by (cases r) (simp_all add: run_finally_def)

end
