(* ===== verification/Glob.thy ===== *)
theory Glob
  imports Prelude
begin

text \<open>
  The URL glob patterns of \<open>page.route(pattern, handler)\<close>: which request URLs a
  registered route intercepts.  This is the Playwright library's semantics, not
  code of the repository; the scripts depend on it through the two patterns
  \<open>**/api/submissions\<close> and \<open>**/api/leads\<close> of \<open>verify_transparency.py\<close>.
  A pattern is read into tokens as Playwright's \<open>globToRegex\<close> reads it: a
  backslash escapes the next character, a run of two or more \<open>*\<close> is a deep
  wildcard (any characters), a single \<open>*\<close> matches characters other than
  \<open>/\<close>, \<open>?\<close> matches one character, anything else is literal, and the
  match is anchored at both ends.  (Brace groups and character classes are
  treated as literals; neither pattern of the scripts contains one.)
  The matcher \<open>tok_match\<close> is a backtracking recursion over tokens and URL;
  \<open>toks_lang\<close> gives the language of a token list as concatenations, and
  \<open>tok_match_lang\<close> proves the two agree.
\<close>

datatype gtok = GLit char | GAny | GStar | GDeep

function glob_tokens :: "string \<Rightarrow> gtok list" where
  "glob_tokens [] = []"
| "glob_tokens (c # cs) =
     (if c = CHR 0x5C \<and> cs \<noteq> [] then GLit (hd cs) # glob_tokens (tl cs)
      else if c = CHR ''*'' then
        (if cs \<noteq> [] \<and> hd cs = CHR ''*''
         then GDeep # glob_tokens (dropWhile (\<lambda>x. x = CHR ''*'') cs)
         else GStar # glob_tokens cs)
      else if c = CHR ''?'' then GAny # glob_tokens cs
      else GLit c # glob_tokens cs)"
  by pat_completeness auto
termination
  by (relation "measure length") (auto simp: length_dropWhile_le le_imp_less_Suc)

fun tok_match :: "gtok list \<Rightarrow> string \<Rightarrow> bool" where
  "tok_match [] s = (s = [])"
| "tok_match (GLit c # ts) s = (case s of [] \<Rightarrow> False | x # xs \<Rightarrow> x = c \<and> tok_match ts xs)"
| "tok_match (GAny # ts) s = (case s of [] \<Rightarrow> False | x # xs \<Rightarrow> tok_match ts xs)"
| "tok_match (GStar # ts) s =
     (tok_match ts s \<or> (case s of [] \<Rightarrow> False | x # xs \<Rightarrow> x \<noteq> CHR ''/'' \<and> tok_match (GStar # ts) xs))"
| "tok_match (GDeep # ts) s =
     (tok_match ts s \<or> (case s of [] \<Rightarrow> False | x # xs \<Rightarrow> tok_match (GDeep # ts) xs))"

definition glob_match :: "string \<Rightarrow> url \<Rightarrow> bool" where
  "glob_match pat u = tok_match (glob_tokens pat) u"

fun tok_lang :: "gtok \<Rightarrow> string set" where
  "tok_lang (GLit c) = {[c]}"
| "tok_lang GAny = {[x] | x. True}"
| "tok_lang GStar = {w. \<forall>x\<in>set w. x \<noteq> CHR ''/''}"
| "tok_lang GDeep = UNIV"

fun toks_lang :: "gtok list \<Rightarrow> string set" where
  "toks_lang [] = {[]}"
| "toks_lang (t # ts) = {u @ v | u v. u \<in> tok_lang t \<and> v \<in> toks_lang ts}"

lemma conc_all_unfold:
  "(\<exists>u v. s = u @ v \<and> (\<forall>x\<in>set u. P x) \<and> v \<in> L) \<longleftrightarrow>
   s \<in> L \<or> (\<exists>x xs. s = x # xs \<and> P x \<and> (\<exists>u v. xs = u @ v \<and> (\<forall>x\<in>set u. P x) \<and> v \<in> L))"
  (is "?l \<longleftrightarrow> ?r")
proof
  assume ?l
  then obtain u v where s: "s = u @ v" and P: "\<forall>x\<in>set u. P x" and v: "v \<in> L" by blast
  show ?r
  proof (cases u)
    case Nil
    with s v show ?thesis by simp
  next
    case (Cons x u')
    with s P v show ?thesis by auto
  qed
next
  assume ?r
  then show ?l
  proof
    assume "s \<in> L"
    then show ?l by (intro exI [of _ "[]"] exI [of _ s]) simp
  next
    assume "\<exists>x xs. s = x # xs \<and> P x \<and> (\<exists>u v. xs = u @ v \<and> (\<forall>x\<in>set u. P x) \<and> v \<in> L)"
    then obtain x u v where "s = (x # u) @ v" "\<forall>x\<in>set (x # u). P x" "v \<in> L" by auto
    then show ?l by blast
  qed
qed

lemma toks_lang_Cons_iff:
  "s \<in> toks_lang (t # ts) \<longleftrightarrow> (\<exists>u v. s = u @ v \<and> u \<in> tok_lang t \<and> v \<in> toks_lang ts)"
  by auto

lemma tok_lang_Any_Cons:
  "(\<exists>u v. x # xs = u @ v \<and> u \<in> tok_lang GAny \<and> v \<in> L) \<longleftrightarrow> xs \<in> L"
proof
  assume "\<exists>u v. x # xs = u @ v \<and> u \<in> tok_lang GAny \<and> v \<in> L"
  then show "xs \<in> L" by auto
next
  assume "xs \<in> L"
  then show "\<exists>u v. x # xs = u @ v \<and> u \<in> tok_lang GAny \<and> v \<in> L"
    by (intro exI [of _ "[x]"] exI [of _ xs]) simp
qed

theorem tok_match_lang: "tok_match ts s \<longleftrightarrow> s \<in> toks_lang ts"
proof (induction ts s rule: tok_match.induct)
  case (1 s)
  then show ?case by simp
next
  case (2 c ts s)
  then show ?case by (cases s) (auto simp: toks_lang_Cons_iff)
next
  case (3 ts s)
  then show ?case by (cases s) (simp_all only: toks_lang_Cons_iff tok_lang_Any_Cons tok_match.simps list.case, simp)
next
  case (4 ts s)
  have "s \<in> toks_lang (GStar # ts) \<longleftrightarrow>
        (\<exists>u v. s = u @ v \<and> (\<forall>x\<in>set u. x \<noteq> CHR ''/'') \<and> v \<in> toks_lang ts)"
    by auto
  also have "\<dots> \<longleftrightarrow> tok_match (GStar # ts) s"
    using 4 by (subst conc_all_unfold) (cases s; simp)
  finally show ?case by simp
next
  case (5 ts s)
  have "s \<in> toks_lang (GDeep # ts) \<longleftrightarrow>
        (\<exists>u v. s = u @ v \<and> (\<forall>x\<in>set u. True) \<and> v \<in> toks_lang ts)"
    by auto
  also have "\<dots> \<longleftrightarrow> tok_match (GDeep # ts) s"
    using 5 by (subst conc_all_unfold) (cases s; simp)
  finally show ?case by simp
qed

lemma toks_lang_literal [simp]: "toks_lang (map GLit w) = {w}"
  by (induction w) auto

text \<open>A pattern that is a deep wildcard followed by literal text matches exactly the
  URLs that end with that text.\<close>

lemma tok_match_deep_literal: "tok_match (GDeep # map GLit w) u \<longleftrightarrow> ends_with w u"
  by (auto simp: tok_match_lang ends_with_iff)

lemma glob_match_deep_literal:
  "glob_tokens pat = GDeep # map GLit w \<Longrightarrow> glob_match pat u \<longleftrightarrow> ends_with w u"
  unfolding glob_match_def by (simp only: tok_match_deep_literal)

end
