(* ===== verification/Network.thy ===== *)
theory Network
  imports Glob
begin

text \<open>
  Request interception as \<open>page.route\<close> and \<open>route.fulfill\<close> provide it.  A page
  keeps a list of routes, newest first (Playwright inserts a new handler in front
  of the old ones, so the most recently registered matching route wins).  A
  request the page sends goes to the first route whose pattern matches its URL;
  that route's handler answers it with a fulfilment (status, content type,
  body).  A request no route matches goes to the real backend.  A handler is a
  function of the request, as the \<open>lambda route: ...\<close> of the scripts is: the
  scripts' handlers ignore their argument, and the theorems about them show what
  that buys.
\<close>

record request =
  req_method :: string
  req_url :: url
  post_data :: "string option"

record mock =
  status :: nat
  content_type :: string
  body :: string

datatype response = Fulfilled mock | Backend request

type_synonym handler = "request \<Rightarrow> mock"
type_synonym route = "string \<times> handler"
type_synonym fetch = "request \<Rightarrow> response"

definition add_route :: "string \<Rightarrow> handler \<Rightarrow> route list \<Rightarrow> route list" where
  "add_route pat h rs = (pat, h) # rs"

fun route_fetch :: "route list \<Rightarrow> fetch" where
  "route_fetch [] r = Backend r"
| "route_fetch ((pat, h) # rs) r =
     (if glob_match pat (req_url r) then Fulfilled (h r) else route_fetch rs r)"

text \<open>A sequence of requests sent during one session, each answered in turn.\<close>

definition serve_all :: "route list \<Rightarrow> request list \<Rightarrow> response list" where
  "serve_all rs reqs = map (route_fetch rs) reqs"

subsection \<open>Dispatch lemmas\<close>

lemma route_fetch_Backend:
  "route_fetch rs r = Backend r' \<Longrightarrow> r' = r \<and> (\<forall>(pat, h) \<in> set rs. \<not> glob_match pat (req_url r))"
  by (induction rs r rule: route_fetch.induct) (auto split: if_splits)

lemma route_fetch_matching:
  "(pat, h) \<in> set rs \<Longrightarrow> glob_match pat (req_url r) \<Longrightarrow> \<exists>m. route_fetch rs r = Fulfilled m"
  by (induction rs r rule: route_fetch.induct) auto

lemma route_fetch_Fulfilled:
  "route_fetch rs r = Fulfilled m \<Longrightarrow>
   \<exists>pat h. (pat, h) \<in> set rs \<and> glob_match pat (req_url r) \<and> m = h r"
  by (induction rs r rule: route_fetch.induct) (auto split: if_splits)

lemma route_fetch_Nil [simp]: "route_fetch [] = Backend"
  by (rule ext) simp

lemma route_fetch_add_route:
  "route_fetch (add_route pat h rs) r =
     (if glob_match pat (req_url r) then Fulfilled (h r) else route_fetch rs r)"
  by (simp add: add_route_def)

end
