(* ===== verification/Playwright.thy ===== *)
theory Playwright
  imports Python Network
begin

text \<open>
  The Playwright calls the three scripts make, as statements over a state of
  type \<open>'d st\<close>.  The browser and the application under test are not code of
  the repository; they are an environment \<open>'d app\<close> that every theorem
  quantifies over: \<open>'d\<close> is the type of a rendered document, \<open>nav\<close> loads a
  URL (or fails with the browser's message), \<open>settle\<close> is waiting for network
  idle, \<open>shown d t l\<close> says whether locator \<open>l\<close> is visible \<open>t\<close> milliseconds
  after a check starts, \<open>perform\<close> is a click, fill, select or check, and
  \<open>writable\<close> tells which screenshot paths can be written.  The page's network
  is the route table of \<open>Network\<close>, so what the application fetches while it
  loads a page or reacts to a click is answered by the registered mocks.

  The state records whether the Playwright driver (\<open>sync_playwright()\<close>) is
  running, whether a browser is launched and not closed, the current page
  document, a clock, the page's routes and the trace of observable events (calls
  made, screenshots written, lines printed), oldest first.  A document is a
  snapshot of the page taken when a navigation, a network-idle wait or an action
  returns; \<open>shown d t l\<close> tells whether \<open>l\<close> is visible \<open>t\<close> ms after that
  snapshot, and the clock is the time elapsed since it.

  \<open>expect(locator).to_be_visible(timeout=T)\<close> polls from the current clock
  \<open>c\<close>: it checks at once and then after waits of 100, 250, 500 and then 1000 ms
  (Playwright's \<open>pollIntervals\<close>) while the deadline \<open>c + T\<close> is not passed;
  it passes at the first check that sees the element, and the clock moves to
  that time (to the deadline when it fails).  \<open>locator.is_visible()\<close> checks
  once, at the current clock, without waiting.
\<close>

datatype role = Heading | Button | Checkbox

datatype locator =
    GetByRole role "string option"   \<comment> \<open>\<open>get_by_role(role, name=...)\<close>\<close>
  | GetByText string                 \<comment> \<open>\<open>get_by_text(text)\<close>\<close>
  | GetByPlaceholder string          \<comment> \<open>\<open>get_by_placeholder(text)\<close>\<close>
  | Css string                       \<comment> \<open>\<open>page.locator(selector)\<close>\<close>
  | First locator                    \<comment> \<open>\<open>locator.first\<close>\<close>
  | Within locator locator           \<comment> \<open>\<open>scope.get_by_...(...)\<close>\<close>

abbreviation heading :: "string \<Rightarrow> locator" where
  "heading n \<equiv> GetByRole Heading (Some n)"

datatype select_by = OptValue string | OptValueOrLabel string

datatype interaction =
    Click locator
  | Fill locator string
  | SelectOption locator select_by
  | Check locator

datatype event =
    PwStarted | PwStopped | Launched | ContextOpened | PageOpened
  | Routed string | Navigated url | LoadIdle
  | Expected locator nat | Probed locator | Performed interaction
  | Shot path | Printed string | BrowserClosed

record 'd app =
  can_launch :: bool
  blank :: 'd
  nav :: "url \<Rightarrow> fetch \<Rightarrow> string + 'd"
  settle :: "'d \<Rightarrow> fetch \<Rightarrow> 'd option"
  shown :: "'d \<Rightarrow> nat \<Rightarrow> locator \<Rightarrow> bool"
  perform :: "'d \<Rightarrow> fetch \<Rightarrow> interaction \<Rightarrow> 'd option"
  writable :: "path \<Rightarrow> bool"

record 'd st =
  driver :: bool
  browser :: bool
  page :: "'d option"
  clock :: nat
  routes :: "route list"
  trace :: "event list"

definition init_st :: "'d st" where
  "init_st =
     \<lparr>driver = False, browser = False, page = None, clock = 0, routes = [], trace = []\<rparr>"

definition log :: "event \<Rightarrow> 'd st \<Rightarrow> 'd st" where
  "log ev s = s\<lparr>trace := trace s @ [ev]\<rparr>"

subsection \<open>Polling\<close>

definition poll_intervals :: "nat list" where
  "poll_intervals = [100, 250, 500, 1000]"

definition default_timeout :: nat where
  "default_timeout = 5000"

function poll :: "(nat \<Rightarrow> bool) \<Rightarrow> nat list \<Rightarrow> nat \<Rightarrow> nat \<Rightarrow> nat option" where
  "poll vis ivs deadline t =
     (if vis t then Some t
      else case ivs of
             [] \<Rightarrow> None
           | i # rest \<Rightarrow>
               if 0 < i \<and> t + i \<le> deadline
               then poll vis (if rest = [] then [i] else rest) deadline (t + i)
               else None)"
  by pat_completeness auto
termination
  by (relation "measure (\<lambda>(vis, ivs, deadline, t). Suc deadline - t)") auto

text \<open>Several \<open>expect(...).to_be_visible()\<close> in a row on one snapshot: each
  polls from the time the previous one passed.\<close>

fun checks_pass :: "'d app \<Rightarrow> 'd \<Rightarrow> nat \<Rightarrow> locator list \<Rightarrow> nat \<Rightarrow> nat option" where
  "checks_pass A d c [] timeout = Some c"
| "checks_pass A d c (l # ls) timeout =
     (case poll (\<lambda>t. shown A d t l) poll_intervals (c + timeout) c of
        None \<Rightarrow> None
      | Some c' \<Rightarrow> checks_pass A d c' ls timeout)"

text \<open>The state a failing block of checks leaves: the checks up to the failing
  one are in the trace and the clock stands at the failing check's deadline.\<close>

fun checks_failed :: "'d app \<Rightarrow> 'd \<Rightarrow> locator list \<Rightarrow> nat \<Rightarrow> 'd st \<Rightarrow> 'd st" where
  "checks_failed A d [] timeout s = s"
| "checks_failed A d (l # ls) timeout s =
     (case poll (\<lambda>t. shown A d t l) poll_intervals (clock s + timeout) (clock s) of
        None \<Rightarrow> (s\<lparr>trace := trace s @ [Expected l timeout]\<rparr>)\<lparr>clock := clock s + timeout\<rparr>
      | Some c \<Rightarrow> checks_failed A d ls timeout
                    ((s\<lparr>trace := trace s @ [Expected l timeout]\<rparr>)\<lparr>clock := c\<rparr>))"

text \<open>Several actions in a row: each acts on the document the previous one
  left, and the first that fails stops the block.\<close>

fun performs :: "'d app \<Rightarrow> 'd \<Rightarrow> fetch \<Rightarrow> interaction list \<Rightarrow> 'd option" where
  "performs A d f [] = Some d"
| "performs A d f (i # is) =
     (case perform A d f i of None \<Rightarrow> None | Some d' \<Rightarrow> performs A d' f is)"

declare poll.simps [simp del]

subsection \<open>Calls\<close>

definition with_playwright :: "'d st stmt \<Rightarrow> 'd st stmt" where
  "with_playwright =
     with_stmt (\<lambda>s. log PwStarted (s\<lparr>driver := True\<rparr>))
               (\<lambda>s. log PwStopped (s\<lparr>driver := False\<rparr>))"

definition on_page :: "('d \<Rightarrow> 'd st stmt) \<Rightarrow> 'd st stmt" where
  "on_page f s =
     (case page s of None \<Rightarrow> Exc (PwError ''Target page has been closed'') s | Some d \<Rightarrow> f d s)"

definition launch :: "'d app \<Rightarrow> 'd st stmt" where
  "launch A s =
     (if can_launch A then Ok (log Launched (s\<lparr>browser := True\<rparr>))
      else Exc (PwError ''BrowserType.launch: Executable doesn't exist'') s)"

definition new_context :: "'d st stmt" where
  "new_context s =
     (if browser s then Ok (log ContextOpened s)
      else Exc (PwError ''Browser has been closed'') s)"

definition new_page :: "'d app \<Rightarrow> 'd st stmt" where
  "new_page A s =
     (if browser s then Ok (log PageOpened (s\<lparr>page := Some (blank A), routes := []\<rparr>))
      else Exc (PwError ''Browser has been closed'') s)"

definition page_route :: "string \<Rightarrow> handler \<Rightarrow> 'd st stmt" where
  "page_route pat h =
     on_page (\<lambda>d s. Ok (log (Routed pat) (s\<lparr>routes := add_route pat h (routes s)\<rparr>)))"

definition goto :: "'d app \<Rightarrow> url \<Rightarrow> 'd st stmt" where
  "goto A u =
     on_page (\<lambda>d s. case nav A u (route_fetch (routes s)) of
                       Inl msg \<Rightarrow> Exc (PwError msg) (log (Navigated u) s)
                     | Inr d' \<Rightarrow> Ok ((log (Navigated u) s)\<lparr>page := Some d', clock := 0\<rparr>))"

definition wait_idle :: "'d app \<Rightarrow> 'd st stmt" where
  "wait_idle A =
     on_page (\<lambda>d s. case settle A d (route_fetch (routes s)) of
                       None \<Rightarrow> Exc (PwTimeout ''Timeout 30000ms exceeded.'') (log LoadIdle s)
                     | Some d' \<Rightarrow> Ok ((log LoadIdle s)\<lparr>page := Some d', clock := 0\<rparr>))"

definition expect_visible :: "'d app \<Rightarrow> locator \<Rightarrow> nat \<Rightarrow> 'd st stmt" where
  "expect_visible A l timeout =
     on_page (\<lambda>d s. case poll (\<lambda>t. shown A d t l) poll_intervals (clock s + timeout) (clock s) of
                       Some t \<Rightarrow> Ok ((log (Expected l timeout) s)\<lparr>clock := t\<rparr>)
                     | None \<Rightarrow> Exc (AssertFailed ''Locator expected to be visible'')
                                 ((log (Expected l timeout) s)\<lparr>clock := clock s + timeout\<rparr>))"

definition is_visible :: "'d app \<Rightarrow> locator \<Rightarrow> 'd st \<Rightarrow> bool" where
  "is_visible A l s = (case page s of None \<Rightarrow> False | Some d \<Rightarrow> shown A d (clock s) l)"

definition interact :: "'d app \<Rightarrow> interaction \<Rightarrow> 'd st stmt" where
  "interact A i =
     on_page (\<lambda>d s. case perform A d (route_fetch (routes s)) i of
                       None \<Rightarrow> Exc (PwTimeout ''Timeout 30000ms exceeded.'') (log (Performed i) s)
                     | Some d' \<Rightarrow> Ok ((log (Performed i) s)\<lparr>page := Some d', clock := 0\<rparr>))"

definition screenshot :: "'d app \<Rightarrow> path \<Rightarrow> 'd st stmt" where
  "screenshot A p =
     on_page (\<lambda>d s. if writable A p then Ok (log (Shot p) s)
                     else Exc (PwError (''EACCES: permission denied, open '' @ p)) s)"

definition browser_close :: "'d st stmt" where
  "browser_close s = Ok (log BrowserClosed (s\<lparr>browser := False, page := None\<rparr>))"

definition print :: "string \<Rightarrow> 'd st stmt" where
  "print m s = Ok (log (Printed m) s)"

subsection \<open>Framing: what a statement can append to the trace\<close>

text \<open>\<open>emits P f\<close>: whatever its outcome, \<open>f\<close> only appends events satisfying
  \<open>P\<close> to the trace.  \<open>no_return f\<close>: \<open>f\<close> never ends in a \<open>return\<close>.
  These are proof tools: the lemmas below establish them for every call, and
  the flow theories compose them.\<close>

definition emits :: "(event \<Rightarrow> bool) \<Rightarrow> 'd st stmt \<Rightarrow> bool" where
  "emits P f \<longleftrightarrow>
     (\<forall>s. \<exists>evs. trace (final (f s)) = trace s @ evs \<and> (\<forall>e\<in>set evs. P e))"

definition no_return :: "'s stmt \<Rightarrow> bool" where
  "no_return f \<longleftrightarrow> (\<forall>s s'. f s \<noteq> Ret s')"

text \<open>\<open>preserves Q f\<close>: from a state satisfying \<open>Q\<close>, \<open>f\<close> ends, on any
  outcome, in a state satisfying \<open>Q\<close>.\<close>

definition preserves :: "('s \<Rightarrow> bool) \<Rightarrow> 's stmt \<Rightarrow> bool" where
  "preserves Q f \<longleftrightarrow> (\<forall>s. Q s \<longrightarrow> Q (final (f s)))"

subsection \<open>Polling lemmas\<close>

lemma poll_unfold:
  "poll vis ivs deadline t =
     (if vis t then Some t
      else case ivs of
             [] \<Rightarrow> None
           | i # rest \<Rightarrow>
               if 0 < i \<and> t + i \<le> deadline
               then poll vis (if rest = [] then [i] else rest) deadline (t + i)
               else None)"
  by (rule poll.simps)

text \<open>A check that passes saw the element at the time it reports, which is
  not before the start and not after the deadline (unless it is the start).\<close>

lemma poll_sound:
  "poll vis ivs deadline t = Some t' \<Longrightarrow> t \<le> t' \<and> (t' = t \<or> t' \<le> deadline) \<and> vis t'"
proof (induction vis ivs deadline t rule: poll.induct)
  case (1 vis ivs deadline t)
  show ?case
  proof (cases "vis t")
    case True
    with "1.prems" show ?thesis by (simp add: poll_unfold [of vis ivs deadline t])
  next
    case False
    with "1.prems" obtain i rest where ivs: "ivs = i # rest" and i: "0 < i" "t + i \<le> deadline"
      and rec: "poll vis (if rest = [] then [i] else rest) deadline (t + i) = Some t'"
      by (auto simp: poll_unfold [of vis ivs deadline t] split: list.splits if_splits)
    from "1.IH" [OF False ivs] i rec have "t + i \<le> t' \<and> (t' = t + i \<or> t' \<le> deadline) \<and> vis t'"
      by simp
    with i show ?thesis by auto
  qed
qed

text \<open>If the element is visible from time \<open>t0\<close> on, and every wait is positive
  and at most \<open>M\<close>, a check whose deadline is at least \<open>t0 + M\<close> passes, at a
  time no later than \<open>t0 + M\<close> (or at once, when it starts after \<open>t0\<close>).\<close>

lemma poll_stable:
  assumes "ivs \<noteq> []" "\<forall>i\<in>set ivs. 0 < i \<and> i \<le> M"
    and "\<forall>t'\<ge>t0. vis t'" "t0 + M \<le> deadline"
  shows "\<exists>t'. poll vis ivs deadline t = Some t' \<and> t' \<le> max t (t0 + M)"
  using assms
proof (induction vis ivs deadline t rule: poll.induct)
  case (1 vis ivs deadline t)
  show ?case
  proof (cases "vis t")
    case True
    then show ?thesis by (simp add: poll_unfold [of vis ivs deadline t])
  next
    case vis: False
    with "1.prems"(3) have lt: "t < t0" by (meson not_le_imp_less)
    from "1.prems"(1) obtain i rest where ivs: "ivs = i # rest" by (cases ivs) auto
    with "1.prems"(2) have i: "0 < i" "i \<le> M" by auto
    have nxt: "(if rest = [] then [i] else rest) \<noteq> []"
      "\<forall>j\<in>set (if rest = [] then [i] else rest). 0 < j \<and> j \<le> M"
      using "1.prems"(2) ivs i by auto
    from lt i "1.prems"(4) have le: "t + i \<le> deadline" by arith
    obtain t' where t': "poll vis (if rest = [] then [i] else rest) deadline (t + i) = Some t'"
      "t' \<le> max (t + i) (t0 + M)"
      using "1.IH" [OF vis ivs] i le nxt "1.prems"(3,4) by blast
    have "poll vis ivs deadline t = Some t'"
      unfolding poll_unfold [of vis ivs deadline t] using vis ivs i le t'(1) by simp
    moreover from lt i t'(2) have "t' \<le> max t (t0 + M)" by arith
    ultimately show ?thesis by blast
  qed
qed

text \<open>An element that is never visible is never seen.\<close>

lemma poll_never:
  assumes "\<forall>t. \<not> vis t"
  shows "poll vis ivs deadline t = None"
  using assms by (cases "poll vis ivs deadline t") (auto dest: poll_sound)

lemma poll_intervals_bounds: "\<forall>i\<in>set poll_intervals. 0 < i \<and> i \<le> 1000"
  by (simp add: poll_intervals_def)

text \<open>Leaving \<open>with sync_playwright()\<close>: whatever the body's outcome, the
  driver is stopped last, on the state the body left.\<close>

lemma with_playwright_final [py_simps]:
  "final (with_playwright f s) =
     log PwStopped ((final (f (log PwStarted (s\<lparr>driver := True\<rparr>))))\<lparr>driver := False\<rparr>)"
  by (simp add: with_playwright_def with_stmt_final)

subsection \<open>Framing lemmas\<close>

lemma emits_final:
  "emits P f \<Longrightarrow> \<exists>evs. trace (final (f s)) = trace s @ evs \<and> (\<forall>e\<in>set evs. P e)"
  by (simp add: emits_def)

lemma emits_seqs [emits_intros]:
  "\<forall>f\<in>set fs. emits P f \<Longrightarrow> emits P (seqs fs)"
proof (induction fs)
  case Nil
  then show ?case by (simp add: emits_def)
next
  case (Cons f fs)
  show ?case unfolding emits_def
  proof
    fix s
    from Cons.prems have "emits P f" by simp
    then obtain evs where e1: "trace (final (f s)) = trace s @ evs" "\<forall>e\<in>set evs. P e"
      by (blast dest: emits_final)
    show "\<exists>evs. trace (final (seqs (f # fs) s)) = trace s @ evs \<and> (\<forall>e\<in>set evs. P e)"
    proof (cases "f s")
      case (Ok s')
      from Cons have "emits P (seqs fs)" by simp
      then obtain evs' where "trace (final (seqs fs s')) = trace s' @ evs'" "\<forall>e\<in>set evs'. P e"
        by (blast dest: emits_final)
      with e1 Ok show ?thesis by (intro exI [of _ "evs @ evs'"]) auto
    qed (use e1 in auto)
  qed
qed

lemma no_return_seqs [no_return_intros]:
  "\<forall>f\<in>set fs. no_return f \<Longrightarrow> no_return (seqs fs)"
proof (induction fs)
  case Nil
  then show ?case by (simp add: no_return_def)
next
  case (Cons f fs)
  then show ?case by (auto simp: no_return_def split: outcome.splits)
qed

lemma emits_try_except [emits_intros]:
  assumes "emits P blk" "\<forall>e. emits P (h e)"
  shows "emits P (try_except blk h)"
  unfolding emits_def
proof
  fix s
  obtain evs where e1: "trace (final (blk s)) = trace s @ evs" "\<forall>e\<in>set evs. P e"
    using emits_final [OF assms(1)] by blast
  show "\<exists>evs. trace (final (try_except blk h s)) = trace s @ evs \<and> (\<forall>e\<in>set evs. P e)"
  proof (cases "blk s")
    case (Exc e s')
    obtain evs' where "trace (final (h e s')) = trace s' @ evs'" "\<forall>e\<in>set evs'. P e"
      using emits_final assms(2) by blast
    with e1 Exc show ?thesis by (intro exI [of _ "evs @ evs'"]) (auto simp: try_except_def)
  qed (use e1 in \<open>auto simp: try_except_def\<close>)
qed

lemma emits_try_except_finally [emits_intros]:
  assumes "emits P blk" "\<forall>e. emits P (h e)" "emits P fin"
  shows "emits P (try_except_finally blk h fin)"
  unfolding emits_def
proof
  fix s
  obtain evs where "trace (final (try_except blk h s)) = trace s @ evs" "\<forall>e\<in>set evs. P e"
    using emits_final [OF emits_try_except [OF assms(1,2)]] by blast
  moreover obtain evs' where "trace (final (fin (final (try_except blk h s)))) =
      trace (final (try_except blk h s)) @ evs'" "\<forall>e\<in>set evs'. P e"
    using emits_final [OF assms(3)] by blast
  ultimately show "\<exists>evs. trace (final (try_except_finally blk h fin s)) = trace s @ evs \<and>
      (\<forall>e\<in>set evs. P e)"
    by (intro exI [of _ "evs @ evs'"]) (auto simp: try_except_finally_def final_run_finally)
qed

lemma emits_return [emits_intros]: "emits P return"
  by (simp add: emits_def return_def)

text \<open>A statement that only emits \<open>P\<close>-events keeps a trace of \<open>P\<close>-events.\<close>

lemma emits_all:
  "emits P f \<Longrightarrow> \<forall>e\<in>set (trace s). P e \<Longrightarrow> \<forall>e\<in>set (trace (final (f s))). P e"
  by (auto dest!: emits_final [of P f s])

lemma emits_call_fn [emits_intros]: "emits P f \<Longrightarrow> emits P (call_fn f)"
  by (simp add: emits_def call_fn_final)

lemma emits_raise [emits_intros]: "emits P (raise e)"
  by (simp add: emits_def raise_def)

lemma emits_log: "P ev \<Longrightarrow> \<exists>evs. trace (log ev s) = trace s @ evs \<and> (\<forall>e\<in>set evs. P e)"
  by (simp add: log_def)

lemma emits_calls [emits_intros]:
  "P Launched \<Longrightarrow> emits P (launch A)"
  "P ContextOpened \<Longrightarrow> emits P new_context"
  "P PageOpened \<Longrightarrow> emits P (new_page A)"
  "P (Routed pat) \<Longrightarrow> emits P (page_route pat h)"
  "P (Navigated u) \<Longrightarrow> emits P (goto A u)"
  "P LoadIdle \<Longrightarrow> emits P (wait_idle A)"
  "P (Expected l tm) \<Longrightarrow> emits P (expect_visible A l tm)"
  "P (Performed i) \<Longrightarrow> emits P (interact A i)"
  "P (Shot p) \<Longrightarrow> emits P (screenshot A p)"
  "P BrowserClosed \<Longrightarrow> emits P browser_close"
  "P (Printed m) \<Longrightarrow> emits P (print m)"
  by (auto simp: emits_def launch_def new_context_def new_page_def page_route_def goto_def
      wait_idle_def expect_visible_def interact_def screenshot_def browser_close_def print_def
      on_page_def log_def split: option.splits sum.splits)

lemma no_return_calls [no_return_intros]:
  "no_return (launch A)" "no_return new_context" "no_return (new_page A)"
  "no_return (page_route pat h)" "no_return (goto A u)" "no_return (wait_idle A)"
  "no_return (expect_visible A l tm)" "no_return (interact A i)"
  "no_return (screenshot A p)" "no_return browser_close" "no_return (print m)"
  by (auto simp: no_return_def launch_def new_context_def new_page_def page_route_def goto_def
      wait_idle_def expect_visible_def interact_def screenshot_def browser_close_def print_def
      on_page_def split: option.splits sum.splits)

subsection \<open>Running blocks of calls\<close>

text \<open>\<open>expect_visible\<close> applied to a state; unlike the definition it does not
  rewrite the unapplied call inside a block, so block lemmas still apply.\<close>

lemma expect_visible_apply [pw_simps]:
  "expect_visible A l T s =
     (case page s of
        None \<Rightarrow> Exc (PwError ''Target page has been closed'') s
      | Some d \<Rightarrow>
          (case poll (\<lambda>t. shown A d t l) poll_intervals (clock s + T) (clock s) of
             Some t \<Rightarrow> Ok ((log (Expected l T) s)\<lparr>clock := t\<rparr>)
           | None \<Rightarrow> Exc (AssertFailed ''Locator expected to be visible'')
                       ((log (Expected l T) s)\<lparr>clock := clock s + T\<rparr>)))"
  by (simp add: expect_visible_def on_page_def)

text \<open>The calls as they apply to a state, for running a short block by
  simplification.\<close>

lemmas pw_call_defs =
  launch_def new_context_def new_page_def page_route_def goto_def wait_idle_def
  expect_visible_apply interact_def screenshot_def browser_close_def print_def on_page_def
  log_def

text \<open>A block of consecutive \<open>expect(...).to_be_visible()\<close> calls on one page
  runs as \<open>checks_pass\<close> says: all pass and the rest of the block runs from the
  clock of the last one, or the first that fails raises the assertion error.\<close>

lemma seqs_expects:
  "page s \<noteq> None \<Longrightarrow>
   seqs (map (\<lambda>l. expect_visible A l T) ls @ rest) s =
   (case checks_pass A (the (page s)) (clock s) ls T of
      None \<Rightarrow> Exc (AssertFailed ''Locator expected to be visible'')
                (checks_failed A (the (page s)) ls T s)
    | Some c \<Rightarrow> seqs rest (s\<lparr>clock := c, trace := trace s @ map (\<lambda>l. Expected l T) ls\<rparr>))"
proof (induction ls arbitrary: s)
  case Nil
  then show ?case by simp
next
  case (Cons l ls)
  then obtain d where d: "page s = Some d" by blast
  show ?case
  proof (cases "poll (\<lambda>t. shown A d t l) poll_intervals (clock s + T) (clock s)")
    case None
    with d show ?thesis by (simp add: expect_visible_def on_page_def log_def)
  next
    case (Some c)
    let ?s' = "(log (Expected l T) s)\<lparr>clock := c\<rparr>"
    have step: "expect_visible A l T s = Ok ?s'"
      using d Some by (simp add: expect_visible_def on_page_def)
    have pg: "page ?s' = Some d" using d by (simp add: log_def)
    have "seqs (map (\<lambda>l. expect_visible A l T) (l # ls) @ rest) s =
          seqs (map (\<lambda>l. expect_visible A l T) ls @ rest) ?s'"
      using step by simp
    also have "\<dots> = (case checks_pass A d c ls T of
        None \<Rightarrow> Exc (AssertFailed ''Locator expected to be visible'') (checks_failed A d ls T ?s')
      | Some c' \<Rightarrow> seqs rest (?s'\<lparr>clock := c', trace := trace ?s' @ map (\<lambda>l. Expected l T) ls\<rparr>))"
      using Cons.IH [of ?s'] pg by (simp cong: option.case_cong)
    also have "\<dots> = (case checks_pass A (the (page s)) (clock s) (l # ls) T of
        None \<Rightarrow> Exc (AssertFailed ''Locator expected to be visible'')
                  (checks_failed A (the (page s)) (l # ls) T s)
      | Some c \<Rightarrow> seqs rest (s\<lparr>clock := c, trace := trace s @ map (\<lambda>l. Expected l T) (l # ls)\<rparr>))"
      using d Some by (simp add: log_def cong: option.case_cong)
    finally show ?thesis .
  qed
qed

lemma seqs_expects_map:
  assumes "page s \<noteq> None"
  shows "seqs (map (\<lambda>x. expect_visible A (f x) T) xs @ rest) s =
   (case checks_pass A (the (page s)) (clock s) (map f xs) T of
      None \<Rightarrow> Exc (AssertFailed ''Locator expected to be visible'')
                (checks_failed A (the (page s)) (map f xs) T s)
    | Some c \<Rightarrow> seqs rest (s\<lparr>clock := c, trace := trace s @ map (\<lambda>l. Expected l T) (map f xs)\<rparr>))"
proof -
  have "map (\<lambda>x. expect_visible A (f x) T) xs = map (\<lambda>l. expect_visible A l T) (map f xs)"
    by simp
  then show ?thesis using seqs_expects [OF assms, of A T "map f xs" rest] by (simp add: comp_def)
qed

text \<open>A block of consecutive actions on one page raises exactly when
  \<open>performs\<close> fails; otherwise the rest of the block runs on the last
  document, with the clock restarted by the last action.\<close>

lemma seqs_interacts_exc:
  "page s = Some d \<Longrightarrow>
   is_exc (seqs (map (interact A) is @ rest) s) \<longleftrightarrow>
   (case performs A d (route_fetch (routes s)) is of
      None \<Rightarrow> True
    | Some d' \<Rightarrow> is_exc (seqs rest (s\<lparr>page := Some d', clock := (if is = [] then clock s else 0),
                                        trace := trace s @ map Performed is\<rparr>)))"
proof (induction "is" arbitrary: s d)
  case Nil
  then have "s\<lparr>page := Some d\<rparr> = s" by (cases s) simp
  then show ?case by simp
next
  case (Cons i "is")
  show ?case
  proof (cases "perform A d (route_fetch (routes s)) i")
    case None
    with Cons.prems show ?thesis by (simp add: interact_def on_page_def)
  next
    case (Some d1)
    let ?s1 = "(log (Performed i) s)\<lparr>page := Some d1, clock := 0\<rparr>"
    have "interact A i s = Ok ?s1" using Cons.prems Some by (simp add: interact_def on_page_def)
    then have "seqs (map (interact A) (i # is) @ rest) s = seqs (map (interact A) is @ rest) ?s1"
      by simp
    with Cons.IH [of ?s1 d1] Some show ?thesis by (simp add: log_def cong: option.case_cong)
  qed
qed

text \<open>A run that goes through a concrete prefix and then one statement \<open>f\<close>,
  followed by statements that only emit events satisfying \<open>P\<close>: whatever
  happens after \<open>f\<close> only appends such events to the trace \<open>f\<close> left.\<close>

lemma seqs_prefix_tail:
  assumes pre: "seqs pre s = Ok s1" and post: "\<forall>g\<in>set post. emits P g"
  shows "\<exists>evs. trace (final (seqs (pre @ f # post) s)) = trace (final (f s1)) @ evs \<and>
                (\<forall>e\<in>set evs. P e)"
proof (cases "f s1")
  case (Ok s2)
  from post have "emits P (seqs post)" by (rule emits_seqs)
  then obtain evs where "trace (final (seqs post s2)) = trace s2 @ evs" "\<forall>e\<in>set evs. P e"
    by (blast dest: emits_final)
  with pre Ok show ?thesis by (simp add: seqs_append)
qed (use pre in \<open>simp_all add: seqs_append\<close>)

lemma seqs_prefix_tail_in:
  assumes "seqs pre s = Ok s1" "\<forall>g\<in>set post. emits (\<lambda>_. True) g"
    and "e \<in> set (trace (final (f s1)))"
  shows "e \<in> set (trace (final (seqs (pre @ f # post) s)))"
  using seqs_prefix_tail [OF assms(1,2), of f] assms(3) by auto

lemma seqs_prefix_tail_notin:
  assumes "seqs pre s = Ok s1" "\<forall>g\<in>set post. emits (\<lambda>x. x \<noteq> e) g"
    and "e \<notin> set (trace (final (f s1)))"
  shows "e \<notin> set (trace (final (seqs (pre @ f # post) s)))"
  using seqs_prefix_tail [OF assms(1,2), of f] assms(3) by auto

subsection \<open>Invariants of state fields\<close>

lemma preservesD: "preserves Q f \<Longrightarrow> Q s \<Longrightarrow> Q (final (f s))"
  by (simp add: preserves_def)

lemma preserves_seqs:
  "\<forall>f\<in>set fs. preserves Q f \<Longrightarrow> preserves Q (seqs fs)"
proof (induction fs)
  case Nil
  then show ?case by (simp add: preserves_def)
next
  case (Cons f fs)
  show ?case unfolding preserves_def
  proof (intro allI impI)
    fix s assume q: "Q s"
    with Cons.prems have qf: "Q (final (f s))" by (simp add: preserves_def)
    show "Q (final (seqs (f # fs) s))"
    proof (cases "f s")
      case (Ok s')
      with qf Cons show ?thesis by (simp add: preserves_def)
    qed (use qf in simp_all)
  qed
qed

lemma preserves_try_except_finally:
  assumes "preserves Q blk" "\<forall>e. preserves Q (h e)" "preserves Q fin"
  shows "preserves Q (try_except_finally blk h fin)"
  unfolding preserves_def
proof (intro allI impI)
  fix s assume q: "Q s"
  have "Q (final (try_except blk h s))"
    using assms(1,2) q by (auto simp: try_except_def preserves_def split: outcome.split)
  with assms(3) show "Q (final (try_except_finally blk h fin s))"
    by (simp add: try_except_finally_def final_run_finally preserves_def)
qed

lemma preserves_raise: "preserves Q (raise e)"
  by (simp add: preserves_def raise_def)

text \<open>Only \<open>page.route\<close> and a new page change the route table.\<close>

lemma preserves_routes_calls:
  "preserves (\<lambda>s. routes s = rs) (launch A)"
  "preserves (\<lambda>s. routes s = rs) new_context"
  "preserves (\<lambda>s. routes s = rs) (goto A u)"
  "preserves (\<lambda>s. routes s = rs) (wait_idle A)"
  "preserves (\<lambda>s. routes s = rs) (expect_visible A l tm)"
  "preserves (\<lambda>s. routes s = rs) (interact A i)"
  "preserves (\<lambda>s. routes s = rs) (screenshot A p)"
  "preserves (\<lambda>s. routes s = rs) browser_close"
  "preserves (\<lambda>s. routes s = rs) (print m)"
  by (auto simp: preserves_def launch_def new_context_def goto_def wait_idle_def
      expect_visible_def interact_def screenshot_def browser_close_def print_def
      on_page_def log_def split: option.splits sum.splits)

text \<open>Only \<open>browser.close()\<close> takes the page away.\<close>

lemma preserves_page_calls:
  "preserves (\<lambda>s. page s \<noteq> None) (launch A)"
  "preserves (\<lambda>s. page s \<noteq> None) new_context"
  "preserves (\<lambda>s. page s \<noteq> None) (new_page A)"
  "preserves (\<lambda>s. page s \<noteq> None) (page_route pat h)"
  "preserves (\<lambda>s. page s \<noteq> None) (goto A u)"
  "preserves (\<lambda>s. page s \<noteq> None) (wait_idle A)"
  "preserves (\<lambda>s. page s \<noteq> None) (expect_visible A l tm)"
  "preserves (\<lambda>s. page s \<noteq> None) (interact A i)"
  "preserves (\<lambda>s. page s \<noteq> None) (screenshot A p)"
  "preserves (\<lambda>s. page s \<noteq> None) (print m)"
  by (auto simp: preserves_def launch_def new_context_def new_page_def page_route_def goto_def
      wait_idle_def expect_visible_def interact_def screenshot_def print_def
      on_page_def log_def split: option.splits sum.splits)

text \<open>Composing blocks that raise exactly when a condition fails: a sequence
  of statements that never \<open>return\<close> and keep a frame condition raises
  exactly when one of the conditions fails.\<close>

lemma preserves_conj:
  "preserves P f \<Longrightarrow> preserves Q f \<Longrightarrow> preserves (\<lambda>s. P s \<and> Q s) f"
  by (simp add: preserves_def)

lemma seqs_Cons_is_exc:
  assumes "no_return f" and "preserves Q f" and "Q s"
    and "\<And>s. Q s \<Longrightarrow> is_exc (f s) \<longleftrightarrow> \<not> P"
    and "\<And>s. Q s \<Longrightarrow> is_exc (seqs fs s) \<longleftrightarrow> \<not> P'"
  shows "is_exc (seqs (f # fs) s) \<longleftrightarrow> \<not> (P \<and> P')"
proof (cases "f s")
  case (Ok s')
  from preservesD [OF assms(2,3)] Ok have "Q s'" by simp
  with Ok assms(3-5) show ?thesis by (metis is_exc.simps(1) seqs_Cons_Ok)
next
  case (Exc e s')
  with assms(4) [OF assms(3)] show ?thesis by simp
next
  case (Ret s')
  with assms(1) show ?thesis by (simp add: no_return_def)
qed

end
