(* ===== verification/Json.thy ===== *)
theory Json
  imports Prelude
begin

text \<open>
  The JSON documents of the mocked API.  \<open>verify_transparency.py\<close> fulfils two
  routes with literal JSON bodies, which the application reads with
  \<open>JSON.parse\<close>.  This theory models JSON values (\<open>json\<close>), their compact
  printing with the separators \<open>", "\<close> and \<open>": "\<close> that the literals of the script
  use (\<open>json_print\<close>), and a recursive-descent parser in the manner of
  \<open>JSON.parse\<close> (\<open>json_parse\<close>): whitespace between tokens, strings with the
  escapes \<open>\"\<close>, \<open>\\\<close>, \<open>\/\<close>, \<open>\b\<close>, \<open>\f\<close>, \<open>\n\<close>, \<open>\r\<close>, \<open>\t\<close> and no raw control
  characters, non-negative integers without leading zeros, \<open>true\<close>, \<open>false\<close>,
  \<open>null\<close>, arrays and objects.  Negative, fractional and exponent numbers and
  \<open>\u\<close> escapes, which the mock bodies do not use, are rejected.  The parser runs
  on fuel, and \<open>json_parse\<close> gives it \<open>2 * length s + 1\<close>, which the lemmas
  below show is enough for every input that any fuel parses.
\<close>

datatype json =
    JNull | JBool bool | JNum nat | JStr string | JArr "json list" | JObj "(string \<times> json) list"

subsection \<open>Printing\<close>

definition digit_char :: "nat \<Rightarrow> char" where
  "digit_char d = char_of (48 + d)"

fun nat_digits :: "nat \<Rightarrow> string" where
  "nat_digits n = (if n < 10 then [digit_char n] else nat_digits (n div 10) @ [digit_char (n mod 10)])"

declare nat_digits.simps [simp del]

text \<open>\<open>"\<close> and \<open>\\<close> are escaped; every other character is written as it is.\<close>

definition esc :: "char \<Rightarrow> string" where
  "esc c = (if c = CHR 0x22 \<or> c = CHR 0x5C then [CHR 0x5C, c] else [c])"

definition quote_str :: "string \<Rightarrow> string" where
  "quote_str w = CHR 0x22 # concat (map esc w) @ [CHR 0x22]"

fun sep_by :: "string \<Rightarrow> string list \<Rightarrow> string" where
  "sep_by sep [] = []"
| "sep_by sep [x] = x"
| "sep_by sep (x # y # ys) = x @ sep @ sep_by sep (y # ys)"

fun json_print :: "json \<Rightarrow> string" where
  "json_print JNull = ''null''"
| "json_print (JBool b) = (if b then ''true'' else ''false'')"
| "json_print (JNum n) = nat_digits n"
| "json_print (JStr w) = quote_str w"
| "json_print (JArr vs) = ''['' @ sep_by '', '' (map json_print vs) @ '']''"
| "json_print (JObj kvs) =
     ''{'' @ sep_by '', '' (map (\<lambda>(k, v). quote_str k @ '': '' @ json_print v) kvs) @ ''}''"

subsection \<open>Parsing\<close>

definition is_ws :: "char \<Rightarrow> bool" where
  "is_ws c \<longleftrightarrow> c = CHR '' '' \<or> c = CHR 0x09 \<or> c = CHR 0x0A \<or> c = CHR 0x0D"

definition skip_ws :: "string \<Rightarrow> string" where
  "skip_ws s = dropWhile is_ws s"

definition is_digit :: "char \<Rightarrow> bool" where
  "is_digit c \<longleftrightarrow> (48::nat) \<le> of_char c \<and> of_char c \<le> (57::nat)"

definition digits_val :: "string \<Rightarrow> nat" where
  "digits_val ds = foldl (\<lambda>a c. 10 * a + (of_char c - 48)) 0 ds"

definition parse_number :: "string \<Rightarrow> (json \<times> string) option" where
  "parse_number s =
     (let ds = takeWhile is_digit s
      in if ds = [] \<or> (hd ds = CHR ''0'' \<and> 1 < length ds) then None
         else Some (JNum (digits_val ds), dropWhile is_digit s))"

fun unescape :: "char \<Rightarrow> char option" where
  "unescape d =
     (if d = CHR 0x22 \<or> d = CHR 0x5C \<or> d = CHR ''/'' then Some d
      else if d = CHR ''b'' then Some (CHR 0x08)
      else if d = CHR ''f'' then Some (CHR 0x0C)
      else if d = CHR ''n'' then Some (CHR 0x0A)
      else if d = CHR ''r'' then Some (CHR 0x0D)
      else if d = CHR ''t'' then Some (CHR 0x09)
      else None)"

text \<open>The characters of a string literal up to its closing quote, and the rest.\<close>

fun parse_chars :: "string \<Rightarrow> (string \<times> string) option" where
  "parse_chars [] = None"
| "parse_chars (c # r) =
     (if c = CHR 0x22 then Some ([], r)
      else if c = CHR 0x5C then
        (case r of
           [] \<Rightarrow> None
         | d # r' \<Rightarrow>
             (case unescape d of
                None \<Rightarrow> None
              | Some d' \<Rightarrow> map_option (\<lambda>(w, r''). (d' # w, r'')) (parse_chars r')))
      else if of_char c < (32::nat) then None
      else map_option (\<lambda>(w, r'). (c # w, r')) (parse_chars r))"

text \<open>A value; the elements of an array after its \<open>[\<close>; the members of an object
  after its \<open>{\<close>.  Each call spends one unit of fuel.\<close>

fun parse_value :: "nat \<Rightarrow> string \<Rightarrow> (json \<times> string) option"
and parse_elems :: "nat \<Rightarrow> string \<Rightarrow> (json list \<times> string) option"
and parse_members :: "nat \<Rightarrow> string \<Rightarrow> ((string \<times> json) list \<times> string) option" where
  "parse_value 0 s = None"
| "parse_value (Suc n) s =
     (case skip_ws s of
        [] \<Rightarrow> None
      | c # r \<Rightarrow>
          if c = CHR ''['' then
            (case skip_ws r of
               [] \<Rightarrow> None
             | d # r' \<Rightarrow>
                 if d = CHR '']'' then Some (JArr [], r')
                 else map_option (\<lambda>(vs, r''). (JArr vs, r'')) (parse_elems n r))
          else if c = CHR ''{'' then
            (case skip_ws r of
               [] \<Rightarrow> None
             | d # r' \<Rightarrow>
                 if d = CHR ''}'' then Some (JObj [], r')
                 else map_option (\<lambda>(kvs, r''). (JObj kvs, r'')) (parse_members n r))
          else if c = CHR 0x22 then map_option (\<lambda>(w, r'). (JStr w, r')) (parse_chars r)
          else if take 4 (c # r) = ''true'' then Some (JBool True, drop 4 (c # r))
          else if take 5 (c # r) = ''false'' then Some (JBool False, drop 5 (c # r))
          else if take 4 (c # r) = ''null'' then Some (JNull, drop 4 (c # r))
          else if is_digit c then parse_number (c # r)
          else None)"
| "parse_elems 0 s = None"
| "parse_elems (Suc n) s =
     (case parse_value n s of
        None \<Rightarrow> None
      | Some (v, r) \<Rightarrow>
          (case skip_ws r of
             [] \<Rightarrow> None
           | c # r' \<Rightarrow>
               if c = CHR '','' then map_option (\<lambda>(vs, r''). (v # vs, r'')) (parse_elems n r')
               else if c = CHR '']'' then Some ([v], r')
               else None))"
| "parse_members 0 s = None"
| "parse_members (Suc n) s =
     (case skip_ws s of
        [] \<Rightarrow> None
      | c # r \<Rightarrow>
          if c \<noteq> CHR 0x22 then None
          else
            (case parse_chars r of
               None \<Rightarrow> None
             | Some (k, r1) \<Rightarrow>
                 (case skip_ws r1 of
                    [] \<Rightarrow> None
                  | d # r2 \<Rightarrow>
                      if d \<noteq> CHR '':'' then None
                      else
                        (case parse_value n r2 of
                           None \<Rightarrow> None
                         | Some (v, r3) \<Rightarrow>
                             (case skip_ws r3 of
                                [] \<Rightarrow> None
                              | e # r4 \<Rightarrow>
                                  if e = CHR '','' then
                                    map_option (\<lambda>(kvs, r5). ((k, v) # kvs, r5)) (parse_members n r4)
                                  else if e = CHR ''}'' then Some ([(k, v)], r4)
                                  else None)))))"

definition json_parse :: "string \<Rightarrow> json option" where
  "json_parse s =
     (case parse_value (Suc (2 * length s)) s of
        None \<Rightarrow> None
      | Some (v, r) \<Rightarrow> if skip_ws r = [] then Some v else None)"

text \<open>Member and element lookup, as \<open>obj[key]\<close> and \<open>arr[i]\<close> read a parsed
  document; with duplicate keys \<open>JSON.parse\<close> keeps the last one.\<close>

fun jget :: "string \<Rightarrow> json \<Rightarrow> json option" where
  "jget k (JObj kvs) = map_of (rev kvs) k"
| "jget k v = None"

fun jnth :: "nat \<Rightarrow> json \<Rightarrow> json option" where
  "jnth i (JArr vs) = (if i < length vs then Some (vs ! i) else None)"
| "jnth i v = None"

text \<open>A path into a document, as \<open>doc.submissions[0].mensagem\<close> reads it.\<close>

datatype jkey = Key string | Idx nat

fun jpath :: "json \<Rightarrow> jkey list \<Rightarrow> json option" where
  "jpath d [] = Some d"
| "jpath d (Key k # p) = Option.bind (jget k d) (\<lambda>d'. jpath d' p)"
| "jpath d (Idx i # p) = Option.bind (jnth i d) (\<lambda>d'. jpath d' p)"

subsection \<open>Well-formed values and the fuel they need\<close>

text \<open>A value the printer writes back faithfully: its strings hold no control
  characters, which the printer does not escape.\<close>

definition str_ok :: "string \<Rightarrow> bool" where
  "str_ok w \<longleftrightarrow> (\<forall>c\<in>set w. 32 \<le> (of_char c :: nat))"

text \<open>The fuel a value needs: one unit per call of the parser along its
  deepest chain of calls.\<close>

fun fuel_list :: "nat list \<Rightarrow> nat" where
  "fuel_list [] = 0"
| "fuel_list (x # xs) = Suc (max x (fuel_list xs))"

fun jfuel :: "json \<Rightarrow> nat" where
  "jfuel (JArr vs) = Suc (fuel_list (map jfuel vs))"
| "jfuel (JObj kvs) = Suc (fuel_list (map (\<lambda>(k, v). jfuel v) kvs))"
| "jfuel v = 1"

fun json_wf :: "json \<Rightarrow> bool" where
  "json_wf (JStr w) = str_ok w"
| "json_wf (JArr vs) = (\<forall>v\<in>set vs. json_wf v)"
| "json_wf (JObj kvs) = (\<forall>(k, v)\<in>set kvs. str_ok k \<and> json_wf v)"
| "json_wf v = True"

subsection \<open>Lemmas\<close>

lemma of_char_digit_char: "d < 10 \<Longrightarrow> of_char (digit_char d) = 48 + d"
  by (simp add: digit_char_def)

lemma is_digit_digit_char: "d < 10 \<Longrightarrow> is_digit (digit_char d)"
  by (simp add: is_digit_def of_char_digit_char)

lemma nat_digits_ne: "nat_digits n \<noteq> []"
  by (subst nat_digits.simps) simp

lemma nat_digits_digits: "\<forall>c\<in>set (nat_digits n). is_digit c"
  by (induction n rule: nat_digits.induct) (subst nat_digits.simps; auto simp: is_digit_digit_char)

lemma digits_val_nat_digits: "digits_val (nat_digits n) = n"
proof (induction n rule: nat_digits.induct)
  case (1 n)
  show ?case
  proof (cases "n < 10")
    case True
    then show ?thesis by (subst nat_digits.simps) (simp add: digits_val_def of_char_digit_char)
  next
    case False
    with 1 have "digits_val (nat_digits (n div 10)) = n div 10" by simp
    with False show ?thesis
      by (subst nat_digits.simps) (simp add: digits_val_def of_char_digit_char)
  qed
qed

text \<open>Only zero is written with a leading \<open>0\<close>.\<close>

lemma nat_digits_hd: "hd (nat_digits n) = CHR ''0'' \<Longrightarrow> n = 0"
proof (induction n rule: nat_digits.induct)
  case (1 n)
  show ?case
  proof (cases "n < 10")
    case True
    with "1.prems" have "digit_char n = CHR ''0''" by (subst (asm) nat_digits.simps) simp
    then have "of_char (digit_char n) = (of_char (CHR ''0'') :: nat)" by simp
    with True show ?thesis by (simp add: of_char_digit_char)
  next
    case False
    with "1.prems" have "hd (nat_digits (n div 10)) = CHR ''0''"
      by (subst (asm) nat_digits.simps) (simp add: nat_digits_ne)
    with 1 False show ?thesis by simp
  qed
qed

lemma nat_digits_single: "1 < length (nat_digits n) \<Longrightarrow> 10 \<le> n"
  by (subst (asm) nat_digits.simps) (simp split: if_splits)

lemma parse_number_nat_digits:
  assumes "rest = [] \<or> \<not> is_digit (hd rest)"
  shows "parse_number (nat_digits n @ rest) = Some (JNum n, rest)"
proof -
  have tw: "takeWhile is_digit (nat_digits n @ rest) = nat_digits n"
    and dw: "dropWhile is_digit (nat_digits n @ rest) = rest"
    using assms nat_digits_digits [of n] by (cases rest; simp)+
  have "\<not> (hd (nat_digits n) = CHR ''0'' \<and> 1 < length (nat_digits n))"
    using nat_digits_hd nat_digits_single by fastforce
  then show ?thesis
    by (simp add: parse_number_def Let_def tw dw nat_digits_ne digits_val_nat_digits)
qed

lemma parse_chars_esc:
  "str_ok w \<Longrightarrow> parse_chars (concat (map esc w) @ CHR 0x22 # rest) = Some (w, rest)"
proof (induction w)
  case (Cons c w)
  then have "str_ok w" and c: "32 \<le> (of_char c :: nat)" by (simp_all add: str_ok_def)
  with Cons.IH show ?case by (auto simp: esc_def)
qed simp


lemma skip_ws_Cons: "skip_ws (c # s) = (if is_ws c then skip_ws s else c # s)"
  by (simp add: skip_ws_def)

lemma skip_ws_Nil [simp]: "skip_ws [] = []"
  by (simp add: skip_ws_def)

lemma parse_value_ws: "is_ws c \<Longrightarrow> parse_value n (c # s) = parse_value n s"
  by (cases n) (simp_all add: skip_ws_Cons)

lemma parse_elems_ws: "is_ws c \<Longrightarrow> parse_elems n (c # s) = parse_elems n s"
  by (cases n) (simp_all add: parse_value_ws)

lemma parse_members_ws: "is_ws c \<Longrightarrow> parse_members n (c # s) = parse_members n s"
  by (cases n) (simp_all add: skip_ws_Cons)

lemma is_digit_special:
  "is_digit c \<Longrightarrow> \<not> is_ws c \<and> c \<noteq> CHR ''['' \<and> c \<noteq> CHR '']'' \<and> c \<noteq> CHR ''{'' \<and> c \<noteq> CHR ''}'' \<and>
     c \<noteq> CHR 0x22 \<and> c \<noteq> CHR ''t'' \<and> c \<noteq> CHR ''f'' \<and> c \<noteq> CHR ''n''"
  by (auto simp: is_digit_def is_ws_def)

text \<open>A printed value starts with a character that is not blank and closes
  nothing.\<close>

lemma json_print_start:
  "\<exists>c r. json_print v = c # r \<and> \<not> is_ws c \<and> c \<noteq> CHR '']'' \<and> c \<noteq> CHR ''}''"
proof (cases v)
  case (JNum n)
  obtain c r where "nat_digits n = c # r" using nat_digits_ne by (cases "nat_digits n") auto
  moreover have "is_digit c" using nat_digits_digits [of n] calculation by simp
  ultimately show ?thesis using JNum is_digit_special by auto
qed (auto simp: is_ws_def quote_str_def)

lemma skip_ws_print: "skip_ws (json_print v @ rest) = json_print v @ rest"
  using json_print_start [of v] by (auto simp: skip_ws_Cons)

lemma parse_elems_print:
  assumes "vs \<noteq> []"
    and "\<forall>v\<in>set vs. \<forall>n rest. jfuel v \<le> n \<longrightarrow> (rest = [] \<or> \<not> is_digit (hd rest)) \<longrightarrow>
           parse_value n (json_print v @ rest) = Some (v, rest)"
    and "fuel_list (map jfuel vs) \<le> n"
  shows "parse_elems n (sep_by '', '' (map json_print vs) @ CHR '']'' # rest) = Some (vs, rest)"
  using assms
proof (induction vs arbitrary: n rule: induct_list012)
  case (2 v)
  then obtain m where n: "n = Suc m" and "jfuel v \<le> m" by (cases n) auto
  with 2 have "parse_value m (json_print v @ CHR '']'' # rest) = Some (v, CHR '']'' # rest)"
    by (auto simp: is_digit_def)
  with n show ?case by (simp add: skip_ws_Cons is_ws_def)
next
  case (3 v v' vs)
  then obtain m where n: "n = Suc m" and m: "jfuel v \<le> m" "fuel_list (map jfuel (v' # vs)) \<le> m"
    by (cases n) auto
  let ?tl = "sep_by '', '' (map json_print (v' # vs)) @ CHR '']'' # rest"
  from 3 m have "parse_value m (json_print v @ '', '' @ ?tl) = Some (v, '', '' @ ?tl)"
    by (auto simp: is_digit_def)
  moreover from 3 m have "parse_elems m ?tl = Some (v' # vs, rest)" by simp
  ultimately show ?case using n by (simp add: skip_ws_Cons is_ws_def parse_elems_ws)
qed simp


lemma parse_members_print:
  assumes "kvs \<noteq> []"
    and "\<forall>(k, v)\<in>set kvs. str_ok k \<and> (\<forall>n rest. jfuel v \<le> n \<longrightarrow>
           (rest = [] \<or> \<not> is_digit (hd rest)) \<longrightarrow>
           parse_value n (json_print v @ rest) = Some (v, rest))"
    and "fuel_list (map (\<lambda>(k, v). jfuel v) kvs) \<le> n"
  shows "parse_members n (sep_by '', '' (map (\<lambda>(k, v). quote_str k @ '': '' @ json_print v) kvs) @
           CHR ''}'' # rest) = Some (kvs, rest)"
  using assms
proof (induction kvs arbitrary: n rule: induct_list012)
  case (2 kv)
  obtain k v where kv: "kv = (k, v)" by fastforce
  from 2 kv obtain m where n: "n = Suc m" and "jfuel v \<le> m" by (cases n) auto
  with 2 kv have "parse_value m (json_print v @ CHR ''}'' # rest) = Some (v, CHR ''}'' # rest)"
    by (auto simp: is_digit_def)
  with 2 kv n show ?case
    by (simp add: quote_str_def skip_ws_Cons is_ws_def parse_chars_esc parse_value_ws)
next
  case (3 kv kv' kvs)
  obtain k v where kv: "kv = (k, v)" by fastforce
  from 3 kv obtain m where n: "n = Suc m" and m: "jfuel v \<le> m"
      "fuel_list (map (\<lambda>(k, v). jfuel v) (kv' # kvs)) \<le> m"
    by (cases n) auto
  let ?tl = "sep_by '', '' (map (\<lambda>(k, v). quote_str k @ '': '' @ json_print v) (kv' # kvs)) @
               CHR ''}'' # rest"
  from 3 kv m have "parse_value m (json_print v @ '', '' @ ?tl) = Some (v, '', '' @ ?tl)"
    by (auto simp: is_digit_def)
  moreover from 3 m have "parse_members m ?tl = Some (kv' # kvs, rest)" by simp
  ultimately show ?case using 3 kv n
    by (simp add: quote_str_def skip_ws_Cons is_ws_def parse_chars_esc parse_value_ws
        parse_members_ws)
qed simp

lemma sep_by_print_start:
  "vs \<noteq> [] \<Longrightarrow>
   \<exists>c r. sep_by sep (map json_print vs) @ x = c # r \<and> \<not> is_ws c \<and> c \<noteq> CHR '']''"
proof (induction sep "map json_print vs" arbitrary: vs rule: sep_by.induct)
  case (2 sep y)
  then show ?case using json_print_start [of "hd vs"] by (cases vs) auto
next
  case (3 sep y z zs)
  then show ?case using json_print_start [of "hd vs"] by (cases vs) auto
qed simp

lemma sep_by_members_start:
  "kvs \<noteq> [] \<Longrightarrow>
   \<exists>r. sep_by sep (map (\<lambda>(k, v). quote_str k @ '': '' @ json_print v) kvs) @ x = CHR 0x22 # r"
proof (cases kvs)
  case (Cons kv kvs')
  then show ?thesis by (cases kv; cases kvs') (auto simp: quote_str_def)
qed simp

text \<open>Round trip: a well-formed value printed and followed by anything that does
  not extend a number parses back to itself, given fuel for its nesting.\<close>

lemma parse_value_print:
  "json_wf v \<Longrightarrow> jfuel v \<le> n \<Longrightarrow> rest = [] \<or> \<not> is_digit (hd rest) \<Longrightarrow>
   parse_value n (json_print v @ rest) = Some (v, rest)"
proof (induction v arbitrary: n rest)
  case JNull
  then obtain m where "n = Suc m" by (cases n) auto
  then show ?case by (simp add: skip_ws_Cons is_ws_def)
next
  case (JBool b)
  then obtain m where "n = Suc m" by (cases n) auto
  then show ?case by (cases b) (simp_all add: skip_ws_Cons is_ws_def)
next
  case (JNum k)
  then obtain m where n: "n = Suc m" by (cases n) auto
  obtain c r where cr: "nat_digits k = c # r" using nat_digits_ne by (cases "nat_digits k") auto
  have "is_digit c" using nat_digits_digits [of k] cr by simp
  with JNum.prems(3) n cr show ?case
    using parse_number_nat_digits [of rest k] is_digit_special [of c]
    by (simp add: skip_ws_Cons)
next
  case (JStr w)
  then obtain m where "n = Suc m" by (cases n) auto
  with JStr show ?case by (simp add: quote_str_def skip_ws_Cons is_ws_def parse_chars_esc)
next
  case (JArr vs)
  then obtain m where n: "n = Suc m" and m: "fuel_list (map jfuel vs) \<le> m" by (cases n) auto
  show ?case
  proof (cases "vs = []")
    case True
    with n show ?thesis by (simp add: skip_ws_Cons is_ws_def)
  next
    case False
    obtain c r where cr: "sep_by '', '' (map json_print vs) @ CHR '']'' # rest = c # r"
        "\<not> is_ws c" "c \<noteq> CHR '']''"
      using sep_by_print_start [OF False] by blast
    have "parse_elems m (sep_by '', '' (map json_print vs) @ CHR '']'' # rest) = Some (vs, rest)"
      using False JArr m by (intro parse_elems_print) auto
    with n cr show ?thesis by (simp add: skip_ws_Cons is_ws_def)
  qed
next
  case (JObj kvs)
  then obtain m where n: "n = Suc m" and m: "fuel_list (map (\<lambda>(k, v). jfuel v) kvs) \<le> m"
    by (cases n) auto
  show ?case
  proof (cases "kvs = []")
    case True
    with n show ?thesis by (simp add: skip_ws_Cons is_ws_def)
  next
    case False
    obtain r where r: "sep_by '', '' (map (\<lambda>(k, v). quote_str k @ '': '' @ json_print v) kvs) @
        CHR ''}'' # rest = CHR 0x22 # r"
      using sep_by_members_start [OF False] by blast
    have "parse_members m (sep_by '', '' (map (\<lambda>(k, v). quote_str k @ '': '' @ json_print v) kvs) @
        CHR ''}'' # rest) = Some (kvs, rest)"
      using False JObj m by (intro parse_members_print) fastforce+
    with n r show ?thesis by (simp add: skip_ws_Cons is_ws_def)
  qed
qed


lemma fuel_list_sep_by:
  "\<forall>x\<in>set xs. f x \<le> length (g x) \<Longrightarrow>
   fuel_list (map f xs) \<le> Suc (length (sep_by '', '' (map g xs)))"
  by (induction xs rule: induct_list012) auto

lemma jfuel_print: "jfuel v \<le> length (json_print v)"
proof (induction v)
  case (JNum n)
  then show ?case using nat_digits_ne [of n] by (cases "nat_digits n") auto
next
  case (JArr vs)
  then show ?case using fuel_list_sep_by [of vs jfuel json_print] by simp
next
  case (JObj kvs)
  have "\<forall>x\<in>set kvs. (\<lambda>(k, v). jfuel v) x \<le> length ((\<lambda>(k, v). quote_str k @ '': '' @ json_print v) x)"
    using JObj by fastforce
  then show ?case using fuel_list_sep_by [of kvs] by simp
qed (simp_all add: quote_str_def)

lemma parse_mono_Suc:
  "(\<forall>s x. parse_value n s = Some x \<longrightarrow> parse_value (Suc n) s = Some x) \<and>
   (\<forall>s y. parse_elems n s = Some y \<longrightarrow> parse_elems (Suc n) s = Some y) \<and>
   (\<forall>s z. parse_members n s = Some z \<longrightarrow> parse_members (Suc n) s = Some z)"
proof (induction n)
  case (Suc n)
  then have V: "\<And>s x. parse_value n s = Some x \<Longrightarrow> parse_value (Suc n) s = Some x"
    and E: "\<And>s y. parse_elems n s = Some y \<Longrightarrow> parse_elems (Suc n) s = Some y"
    and M: "\<And>s z. parse_members n s = Some z \<Longrightarrow> parse_members (Suc n) s = Some z"
    by blast+
  have "parse_value (Suc (Suc n)) s = Some x" if "parse_value (Suc n) s = Some x" for s x
    using that unfolding parse_value.simps(2) [of "Suc n" s] parse_value.simps(2) [of n s]
    by (auto split: list.split_asm if_split_asm option.split_asm simp: E M
        simp del: parse_value.simps parse_elems.simps parse_members.simps)
  moreover have "parse_elems (Suc (Suc n)) s = Some y" if "parse_elems (Suc n) s = Some y" for s y
    using that unfolding parse_elems.simps(2) [of "Suc n" s] parse_elems.simps(2) [of n s]
    by (auto split: list.split_asm if_split_asm option.split_asm simp: V E
        simp del: parse_value.simps parse_elems.simps parse_members.simps)
  moreover have "parse_members (Suc (Suc n)) s = Some z" if "parse_members (Suc n) s = Some z" for s z
    using that unfolding parse_members.simps(2) [of "Suc n" s] parse_members.simps(2) [of n s]
    by (auto split: list.split_asm if_split_asm option.split_asm simp: V M
        simp del: parse_value.simps parse_elems.simps parse_members.simps)
  ultimately show ?case by blast
qed simp


lemma Suc_closed_le: "(\<And>k. P k \<Longrightarrow> P (Suc k)) \<Longrightarrow> P n \<Longrightarrow> n \<le> m \<Longrightarrow> P m"
  by (induction m) (auto simp: le_Suc_eq)

lemma parse_value_mono: "parse_value n s = Some x \<Longrightarrow> n \<le> m \<Longrightarrow> parse_value m s = Some x"
  by (rule Suc_closed_le [where P = "\<lambda>k. parse_value k s = Some x"]) (use parse_mono_Suc in blast)+

lemma parse_elems_mono: "parse_elems n s = Some y \<Longrightarrow> n \<le> m \<Longrightarrow> parse_elems m s = Some y"
  by (rule Suc_closed_le [where P = "\<lambda>k. parse_elems k s = Some y"]) (use parse_mono_Suc in blast)+

lemma parse_members_mono:
  "parse_members n s = Some z \<Longrightarrow> n \<le> m \<Longrightarrow> parse_members m s = Some z"
  by (rule Suc_closed_le [where P = "\<lambda>k. parse_members k s = Some z"]) (use parse_mono_Suc in blast)+

lemma skip_ws_length: "skip_ws s = c # r \<Longrightarrow> length r < length s"
  using length_dropWhile_le [of is_ws s] by (simp add: skip_ws_def)

lemma parse_chars_length: "parse_chars s = Some (w, r) \<Longrightarrow> length r < length s"
  by (induction s arbitrary: w rule: parse_chars.induct)
    (fastforce split: if_splits list.splits option.splits)+

lemma parse_number_length: "parse_number s = Some (v, r) \<Longrightarrow> length r < length s"
proof -
  assume a: "parse_number s = Some (v, r)"
  then have "takeWhile is_digit s \<noteq> []" and r: "r = dropWhile is_digit s"
    by (auto simp: parse_number_def Let_def split: if_splits)
  then obtain c s' where "s = c # s'" "is_digit c" by (cases s) (auto split: if_splits)
  with r show ?thesis using length_dropWhile_le [of is_digit s'] by simp
qed

lemma parse_consumes:
  "(\<forall>s v r. parse_value n s = Some (v, r) \<longrightarrow> length r < length s) \<and>
   (\<forall>s v r. parse_elems n s = Some (v, r) \<longrightarrow> length r < length s) \<and>
   (\<forall>s v r. parse_members n s = Some (v, r) \<longrightarrow> length r < length s)"
proof (induction n)
  case (Suc n)
  then have V: "\<And>s v r. parse_value n s = Some (v, r) \<Longrightarrow> length r < length s"
    and E: "\<And>s v r. parse_elems n s = Some (v, r) \<Longrightarrow> length r < length s"
    and M: "\<And>s v r. parse_members n s = Some (v, r) \<Longrightarrow> length r < length s"
    by blast+
  have "length r < length s" if "parse_value (Suc n) s = Some (v, r)" for s v r
    using that unfolding parse_value.simps(2) [of n s]
    by (auto split: list.split_asm if_split_asm option.split_asm
        dest!: E M parse_chars_length parse_number_length skip_ws_length
        simp del: parse_value.simps parse_elems.simps parse_members.simps)
  moreover have "length r < length s" if "parse_elems (Suc n) s = Some (v, r)" for s v r
    using that unfolding parse_elems.simps(2) [of n s]
    by (auto split: list.split_asm if_split_asm option.split_asm
        dest!: V E skip_ws_length
        simp del: parse_value.simps parse_elems.simps parse_members.simps)
  moreover have "length r < length s" if "parse_members (Suc n) s = Some (v, r)" for s v r
    using that unfolding parse_members.simps(2) [of n s]
    by (auto split: list.split_asm if_split_asm option.split_asm
        dest!: V M parse_chars_length skip_ws_length
        simp del: parse_value.simps parse_elems.simps parse_members.simps)
  ultimately show ?case by blast
qed simp


lemma parse_bound:
  "(\<forall>s x. parse_value n s = Some x \<longrightarrow> parse_value (2 * length s) s = Some x) \<and>
   (\<forall>s y. parse_elems n s = Some y \<longrightarrow> parse_elems (Suc (2 * length s)) s = Some y) \<and>
   (\<forall>s z. parse_members n s = Some z \<longrightarrow> parse_members (Suc (2 * length s)) s = Some z)"
proof (induction n)
  case (Suc n)
  have V: "\<And>r x m. parse_value n r = Some x \<Longrightarrow> 2 * length r \<le> m \<Longrightarrow> parse_value m r = Some x"
    using Suc parse_value_mono by blast
  have E: "\<And>r y m. parse_elems n r = Some y \<Longrightarrow> Suc (2 * length r) \<le> m \<Longrightarrow>
      parse_elems m r = Some y"
    using Suc parse_elems_mono by blast
  have M: "\<And>r z m. parse_members n r = Some z \<Longrightarrow> Suc (2 * length r) \<le> m \<Longrightarrow>
      parse_members m r = Some z"
    using Suc parse_members_mono by blast
  have C: "\<And>r v r'. parse_value n r = Some (v, r') \<Longrightarrow> length r' < length r"
    using parse_consumes by blast
  have "parse_value (2 * length s) s = Some x" if a: "parse_value (Suc n) s = Some x" for s x
  proof -
    from a obtain c r where "skip_ws s = c # r" by (auto split: list.splits)
    then obtain k where k: "2 * length s = Suc k" using skip_ws_length [of s c r]
      by (cases "2 * length s") auto
    have E': "parse_elems k r = Some y" if "skip_ws s = c # r" "parse_elems n r = Some y" for c r y
      using k skip_ws_length [OF that(1)] by (intro E [OF that(2)]) arith
    have M': "parse_members k r = Some z" if "skip_ws s = c # r" "parse_members n r = Some z" for c r z
      using k skip_ws_length [OF that(1)] by (intro M [OF that(2)]) arith
    from a show ?thesis
      unfolding k parse_value.simps(2) [of n s] parse_value.simps(2) [of k s]
      apply (auto split: list.split_asm if_split_asm option.split_asm
          simp del: parse_value.simps parse_elems.simps parse_members.simps)
      using E' M' by blast+
  qed
  moreover have "parse_elems (Suc (2 * length s)) s = Some y" if a: "parse_elems (Suc n) s = Some y" for s y
  proof -
    from a obtain v r where pv: "parse_value n s = Some (v, r)" by (auto split: option.splits)
    have pv': "parse_value (2 * length s) s = Some (v, r)" by (rule V [OF pv]) simp
    show ?thesis
    proof (cases "skip_ws r")
      case Nil
      with a pv show ?thesis by simp
    next
      case (Cons c r')
      have l: "length r' < length s" using skip_ws_length [OF Cons] C [OF pv] by simp
      show ?thesis
      proof (cases "c = CHR '',''")
        case True
        with a pv Cons obtain vs r'' where pe: "parse_elems n r' = Some (vs, r'')"
            and y: "y = (v # vs, r'')"
          by (auto split: option.splits)
        have "parse_elems (2 * length s) r' = Some (vs, r'')" by (rule E [OF pe]) (use l in simp)
        with pv' Cons True y show ?thesis by simp
      next
        case False
        with a pv pv' Cons show ?thesis by (auto split: if_splits)
      qed
    qed
  qed
  moreover have "parse_members (Suc (2 * length s)) s = Some z"
    if a: "parse_members (Suc n) s = Some z" for s z
  proof -
    from a obtain r k r1 r2 v r3 where
      s1: "skip_ws s = CHR 0x22 # r" and pc: "parse_chars r = Some (k, r1)" and
      s2: "skip_ws r1 = CHR '':'' # r2" and pv: "parse_value n r2 = Some (v, r3)"
      by (auto split: list.splits if_splits option.splits)
    have l2: "length r2 < length s"
      using skip_ws_length [OF s1] parse_chars_length [OF pc] skip_ws_length [OF s2] by simp
    have pv': "parse_value (2 * length s) r2 = Some (v, r3)" by (rule V [OF pv]) (use l2 in simp)
    show ?thesis
    proof (cases "skip_ws r3")
      case Nil
      with a s1 pc s2 pv show ?thesis by simp
    next
      case (Cons e r4)
      have l4: "length r4 < length s" using skip_ws_length [OF Cons] C [OF pv] l2 by simp
      show ?thesis
      proof (cases "e = CHR '',''")
        case True
        with a s1 pc s2 pv Cons obtain kvs r5 where pm: "parse_members n r4 = Some (kvs, r5)"
            and z: "z = ((k, v) # kvs, r5)"
          by (auto split: option.splits)
        have "parse_members (2 * length s) r4 = Some (kvs, r5)" by (rule M [OF pm]) (use l4 in simp)
        with s1 pc s2 pv' Cons True z show ?thesis by simp
      next
        case False
        with a s1 pc s2 pv pv' Cons show ?thesis by (auto split: if_splits)
      qed
    qed
  qed
  ultimately show ?case by blast
qed simp

text \<open>Round trip: every well-formed JSON value, printed in the form of the mock
  bodies, is parsed back to itself.\<close>

lemma json_parse_print: "json_wf v \<Longrightarrow> json_parse (json_print v) = Some v"
  using parse_value_print [of v "Suc (2 * length (json_print v))" "[]"] jfuel_print [of v]
  by (simp add: json_parse_def)

text \<open>Fuel adequacy: the parser returns on every input, and the fuel
  \<open>json_parse\<close> gives it is enough: whatever some amount of fuel parses,
  \<open>json_parse\<close> returns, and conversely (the parser is monotone in fuel and
  never needs more than twice the length of its input).\<close>

lemma json_parse_fuel:
  "json_parse s = Some v \<longleftrightarrow> (\<exists>n r. parse_value n s = Some (v, r) \<and> skip_ws r = [])"
proof
  assume "json_parse s = Some v"
  then show "\<exists>n r. parse_value n s = Some (v, r) \<and> skip_ws r = []"
    by (fastforce simp: json_parse_def simp del: parse_value.simps split: option.splits if_splits)
next
  assume "\<exists>n r. parse_value n s = Some (v, r) \<and> skip_ws r = []"
  then obtain n r where p: "parse_value n s = Some (v, r)" and r: "skip_ws r = []" by blast
  from parse_bound p have "parse_value (2 * length s) s = Some (v, r)" by blast
  then have "parse_value (Suc (2 * length s)) s = Some (v, r)" by (rule parse_value_mono) simp
  with r show "json_parse s = Some v" by (simp add: json_parse_def)
qed

end
