(* ===== verification/Xperience.thy ===== *)
theory Xperience
  imports Playwright Json
begin

text \<open>
  A reference model of the application the scripts drive: the Xperience web
  app, which is not under src/ and is modelled from the contracts of spec.md
  (sections 4.1, 4.2, 4.3 and 6).  It instantiates the environment \<open>'d app\<close> of
  \<open>Playwright\<close> with documents of type \<open>xdoc\<close>: the view the browser shows and
  the values typed into the agent-creation form.  Four parameters describe the
  machine the scripts run on: whether the agent list already holds agents (the
  two variants of the agents page), how many milliseconds after the agents page
  loads its entry-point control appears (the list is fetched after the page
  shell renders), whether the development server answers, and which screenshot
  paths can be written.  The public pages of the preview build (transparency,
  contact, leads manager) read the API through the page's network, that is
  through the routes the script installs: they fetch the submissions listing,
  parse it as JSON and show the \<open>mensagem\<close> or \<open>id\<close> of each submission, and the
  contact form posts the lead and shows the \<open>id\<close> of the response.  A request
  no route answers goes to the backend, which this model does not run, so it
  yields no data.  The flow theories use the model to exercise each theorem at a
  concrete input; no theorem about the scripts depends on it except those that
  name it.
\<close>

datatype xview =
    XBlank | XDashboard | XAgents | XModal | XChat
  | XTransparency "string list" | XContact | XContactSent string | XLeads "string list"
  | XOther url

record xdoc =
  view :: xview
  name_in :: string
  role_in :: string
  cmd_in :: string

definition xp_blank :: xdoc where
  "xp_blank = \<lparr>view = XBlank, name_in = [], role_in = [], cmd_in = []\<rparr>"

definition dashboard_sections :: "string list" where
  "dashboard_sections =
     [A_acute # ''rea Logada'', ''Agentes'', ''Relat'' @ o_acute # ''rios'', ''Projetos'',
      ''Configura'' @ c_cedil # o_tilde # ''es'']"

text \<open>The API requests of the public pages and what they read from the answers.\<close>

definition submissions_request :: request where
  "submissions_request =
     \<lparr>req_method = ''GET'', req_url = ''http://localhost:4173/api/submissions'', post_data = None\<rparr>"

definition lead_request :: "string \<Rightarrow> request" where
  "lead_request name =
     \<lparr>req_method = ''POST'', req_url = ''http://localhost:4173/api/leads'',
      post_data = Some (json_print (JObj [(''nome'', JStr name)]))\<rparr>"

fun str_field :: "string \<Rightarrow> json \<Rightarrow> string list" where
  "str_field k d = (case jget k d of Some (JStr w) \<Rightarrow> [w] | _ \<Rightarrow> [])"

definition fetched_field :: "string \<Rightarrow> response \<Rightarrow> string list" where
  "fetched_field k resp =
     (case resp of
        Fulfilled m \<Rightarrow>
          (case Option.bind (json_parse (body m)) (\<lambda>j. jpath j [Key ''submissions'']) of
             Some (JArr subs) \<Rightarrow> concat (map (str_field k) subs)
           | _ \<Rightarrow> [])
      | Backend r \<Rightarrow> [])"

definition lead_id :: "response \<Rightarrow> string" where
  "lead_id resp =
     (case resp of
        Fulfilled m \<Rightarrow>
          (case Option.bind (json_parse (body m)) (\<lambda>j. jpath j [Key ''id'']) of
             Some (JStr i) \<Rightarrow> i
           | _ \<Rightarrow> [])
      | Backend r \<Rightarrow> [])"

text \<open>What each view shows: the dashboard's five section headings; the agents
  page's title and label with the button of a populated list or the
  first-agent affordance of an empty one; the creation dialog; the chat of the
  agent just created, headed by its name.\<close>

fun xp_view :: "bool \<Rightarrow> xdoc \<Rightarrow> locator list" where
  "xp_view populated d =
     (case view d of
        XDashboard \<Rightarrow> map heading dashboard_sections
      | XAgents \<Rightarrow>
          [heading ''Meus Agentes de IA'', GetByText ''Meus Agentes'']
          @ (if populated then [First (GetByRole Button (Some ''Novo Agente''))]
             else [GetByText ''Criar Primeiro Agente''])
      | XModal \<Rightarrow>
          [GetByText ''Criar Novo Agente'', GetByPlaceholder ''Ex: Consultor de Vendas'',
           GetByPlaceholder ''Ex: Especialista em Marketing'', Css ''select'',
           GetByRole Button (Some ''Criar Agente'')]
      | XChat \<Rightarrow> [heading (name_in d), GetByPlaceholder ''Digite sua mensagem...'']
      | XTransparency ms \<Rightarrow>
          GetByText (''Transpar'' @ e_circ # ''ncia Xperience'') # map GetByText ms
      | XContact \<Rightarrow>
          [Within (First (Css ''form'')) (GetByPlaceholder ''Nome''),
           Within (First (Css ''form'')) (GetByPlaceholder ''E-mail''),
           Within (First (Css ''form'')) (GetByPlaceholder ''Telefone''),
           Css ''select'', Css ''textarea'', GetByRole Checkbox None,
           GetByRole Button (Some ''Enviar mensagem'')]
      | XContactSent i \<Rightarrow>
          [GetByText ''Mensagem enviada com sucesso!'', GetByText (''ID P'' @ u_acute # ''blico: '' @ i)]
      | XLeads ids \<Rightarrow> GetByText (''Gerenciador de Submiss'' @ o_tilde # ''es'') # map GetByText ids
      | _ \<Rightarrow> [])"

text \<open>The entry-point controls of the agents page appear \<open>delay\<close> ms after the
  page loads; everything else is visible at once.\<close>

definition xp_shown :: "bool \<Rightarrow> nat \<Rightarrow> xdoc \<Rightarrow> nat \<Rightarrow> locator \<Rightarrow> bool" where
  "xp_shown populated delay d t l =
     (l \<in> set (xp_view populated d) \<and>
      (view d = XAgents \<and>
       (l = First (GetByRole Button (Some ''Novo Agente'')) \<or> l = GetByText ''Criar Primeiro Agente'')
       \<longrightarrow> delay \<le> t))"

definition xp_nav :: "bool \<Rightarrow> url \<Rightarrow> fetch \<Rightarrow> string + xdoc" where
  "xp_nav up u f =
     (if \<not> up then Inl (''net::ERR_CONNECTION_REFUSED at '' @ u)
      else if u = ''http://localhost:5173/dashboard'' then Inr (xp_blank\<lparr>view := XDashboard\<rparr>)
      else if u = ''http://localhost:5173/agents'' then Inr (xp_blank\<lparr>view := XAgents\<rparr>)
      else if u = ''http://localhost:4173/transparencia''
      then Inr (xp_blank\<lparr>view := XTransparency (fetched_field ''mensagem'' (f submissions_request))\<rparr>)
      else if u = ''http://localhost:4173/contact'' then Inr (xp_blank\<lparr>view := XContact\<rparr>)
      else if u = ''http://localhost:4173/leads''
      then Inr (xp_blank\<lparr>view := XLeads (fetched_field ''id'' (f submissions_request))\<rparr>)
      else Inr (xp_blank\<lparr>view := XOther u\<rparr>))"

text \<open>An action on an element the view does not show times out (\<open>None\<close>);
  submitting the contact form posts the lead through the page's network.\<close>

fun xp_act :: "xdoc \<Rightarrow> fetch \<Rightarrow> interaction \<Rightarrow> xdoc" where
  "xp_act d f (Click l) =
     (if view d = XDashboard \<and> l = heading ''Agentes'' then d\<lparr>view := XAgents\<rparr>
      else if view d = XAgents \<and>
              (l = First (GetByRole Button (Some ''Novo Agente'')) \<or> l = GetByText ''Criar Primeiro Agente'')
      then d\<lparr>view := XModal\<rparr>
      else if view d = XModal \<and> l = GetByRole Button (Some ''Criar Agente'') \<and> name_in d \<noteq> []
      then d\<lparr>view := XChat\<rparr>
      else if view d = XContact \<and> l = GetByRole Button (Some ''Enviar mensagem'')
      then d\<lparr>view := XContactSent (lead_id (f (lead_request (name_in d))))\<rparr>
      else d)"
| "xp_act d f (Fill l v) =
     (if l = GetByPlaceholder ''Ex: Consultor de Vendas'' then d\<lparr>name_in := v\<rparr>
      else if l = Within (First (Css ''form'')) (GetByPlaceholder ''Nome'') then d\<lparr>name_in := v\<rparr>
      else if l = GetByPlaceholder ''Ex: Especialista em Marketing'' then d\<lparr>role_in := v\<rparr>
      else d)"
| "xp_act d f (SelectOption l (OptValue v)) = d\<lparr>cmd_in := v\<rparr>"
| "xp_act d f (SelectOption l (OptValueOrLabel v)) = d\<lparr>cmd_in := v\<rparr>"
| "xp_act d f (Check l) = d"

fun target :: "interaction \<Rightarrow> locator" where
  "target (Click l) = l"
| "target (Fill l v) = l"
| "target (SelectOption l v) = l"
| "target (Check l) = l"

definition xp_perform :: "bool \<Rightarrow> xdoc \<Rightarrow> fetch \<Rightarrow> interaction \<Rightarrow> xdoc option" where
  "xp_perform populated d f i =
     (if target i \<in> set (xp_view populated d) then Some (xp_act d f i) else None)"

definition xperience_app :: "bool \<Rightarrow> nat \<Rightarrow> bool \<Rightarrow> (path \<Rightarrow> bool) \<Rightarrow> xdoc app" where
  "xperience_app populated delay up wr =
     \<lparr>can_launch = True, blank = xp_blank, nav = xp_nav up,
      settle = (\<lambda>d f. Some d),
      shown = xp_shown populated delay,
      perform = xp_perform populated, writable = wr\<rparr>"

end
