(* ===== verification/Dashboard.thy ===== *)
theory Dashboard
  imports Xperience
begin

text \<open>
  \<open>src/verification/test_dashboard.py\<close>: \<open>verify_dashboard\<close> opens the
  dashboard with mocked authentication, checks its five section headings, takes
  a screenshot, clicks the "Agentes" heading and checks the agents page heading.
  The definition lists the function body statement by statement; the \<open>with
  sync_playwright() as p:\<close> block is \<open>with_playwright\<close>, and \<open>dashboard_main\<close>
  is the \<open>if __name__ == "__main__":\<close> entry point.
\<close>

definition verify_dashboard :: "'d app \<Rightarrow> 'd st stmt" where
  "verify_dashboard A =
     with_playwright (seqs [
       launch A,
       new_page A,
       print ''Navigating to dashboard...'',
       goto A ''http://localhost:5173/dashboard'',
       wait_idle A,
       print ''Checking for dashboard elements...'',
       expect_visible A (heading (A_acute # ''rea Logada'')) default_timeout,
       expect_visible A (heading ''Agentes'') default_timeout,
       expect_visible A (heading (''Relat'' @ o_acute # ''rios'')) default_timeout,
       expect_visible A (heading ''Projetos'') default_timeout,
       expect_visible A (heading (''Configura'' @ c_cedil # o_tilde # ''es'')) default_timeout,
       print ''Taking screenshot...'',
       screenshot A ''verification/dashboard_restored.png'',
       print ''Clicking Agentes...'',
       interact A (Click (heading ''Agentes'')),
       wait_idle A,
       print ''Checking for Agents page content...'',
       expect_visible A (heading ''Meus Agentes de IA'') default_timeout,
       browser_close,
       print ''Verification complete.''])"

definition dashboard_main :: "'d app \<Rightarrow> 'd st outcome" where
  "dashboard_main A = call_fn (verify_dashboard A) init_st"

lemmas dashboard_unfold =
  dashboard_main_def verify_dashboard_def with_playwright_def call_fn_def with_stmt_def
  launch_def new_page_def goto_def wait_idle_def expect_visible_def interact_def
  screenshot_def browser_close_def print_def on_page_def log_def init_st_def

text \<open>The body of \<open>verify_dashboard\<close> in the blocks of its comments: navigate
  and wait, the five heading assertions, screenshot and click, the agents page
  assertion, close.\<close>

lemma verify_dashboard_blocks:
  "verify_dashboard A =
     with_playwright (seqs (
       [launch A, new_page A, print ''Navigating to dashboard...'',
        goto A ''http://localhost:5173/dashboard'', wait_idle A,
        print ''Checking for dashboard elements...''] @
       map (\<lambda>n. expect_visible A (heading n) default_timeout) dashboard_sections @
       [print ''Taking screenshot...'', screenshot A ''verification/dashboard_restored.png'',
        print ''Clicking Agentes...'', interact A (Click (heading ''Agentes'')), wait_idle A,
        print ''Checking for Agents page content...'',
        expect_visible A (heading ''Meus Agentes de IA'') default_timeout,
        browser_close, print ''Verification complete.'']))"
  by (simp add: verify_dashboard_def dashboard_sections_def)

lemmas dashboard_run =
  dashboard_main_def call_fn_is_exc verify_dashboard_blocks with_playwright_def
  with_stmt_is_exc init_st_def pw_call_defs seqs_expects_map

text \<open>The dashboard's screenshot is taken between the heading assertions and the
  click: in every run, either no screenshot was written or the click on
  "Agentes" follows it.\<close>

lemma dashboard_shot_then_click:
  fixes A :: "'d app"
  shows "(\<forall>f. Shot f \<notin> set (trace (final (dashboard_main A)))) \<or>
         (\<exists>as bs cs f. trace (final (dashboard_main A)) =
                         as @ Shot f # bs @ Performed (Click (heading ''Agentes'')) # cs)"
proof -
  let ?s0 = "log PwStarted ((init_st :: 'd st)\<lparr>driver := True\<rparr>)"
  let ?pre = "[launch A, new_page A, print ''Navigating to dashboard...'',
               goto A ''http://localhost:5173/dashboard'', wait_idle A,
               print ''Checking for dashboard elements...''] @
              map (\<lambda>n. expect_visible A (heading n) default_timeout) dashboard_sections @
              [print ''Taking screenshot...'']"
  let ?p = "''verification/dashboard_restored.png''"
  let ?c = "Click (heading ''Agentes'')"
  let ?post = "[wait_idle A, print ''Checking for Agents page content...'',
                expect_visible A (heading ''Meus Agentes de IA'') default_timeout,
                browser_close, print ''Verification complete.'']"
  let ?body = "?pre @ screenshot A ?p # print ''Clicking Agentes...'' # interact A ?c # ?post"
  have flow: "trace (final (dashboard_main A)) = trace (final (seqs ?body ?s0)) @ [PwStopped]"
    by (simp add: dashboard_main_def call_fn_final verify_dashboard_blocks with_playwright_final
        log_def del: seqs.simps)
  have pre: "\<forall>e\<in>set (trace (final (seqs ?pre ?s0))). \<forall>f. e \<noteq> Shot f"
    by (rule emits_all) (simp_all add: emits_seqs emits_calls log_def init_st_def del: seqs.simps)
  show ?thesis
  proof (cases "seqs ?pre ?s0")
    case (Ok s1)
    from pre [unfolded Ok final.simps] have t1: "\<forall>e\<in>set (trace s1). \<forall>f. e \<noteq> Shot f" .
    show ?thesis
    proof (cases "screenshot A ?p s1")
      case shot: (Ok s2)
      then obtain d where pg: "page s1 = Some d" and s2: "s2 = log (Shot ?p) s1"
        by (auto simp: screenshot_def on_page_def split: option.splits if_splits)
      let ?s3 = "log (Printed ''Clicking Agentes...'') s2"
      have run: "seqs ?body ?s0 = seqs (print ''Clicking Agentes...'' # interact A ?c # ?post) s2"
        by (simp only: seqs_append [of ?pre] Ok outcome.case
            seqs_Cons_Ok [where f = "screenshot A ?p", OF shot])
      obtain evs where evs: "trace (final (seqs (print ''Clicking Agentes...'' # interact A ?c # ?post) s2)) =
          trace (final (interact A ?c ?s3)) @ evs"
        using seqs_prefix_tail [of "[print ''Clicking Agentes...'']" s2 ?s3 ?post "\<lambda>_. True"
            "interact A ?c"]
        by (auto simp add: print_def emits_calls simp del: seqs.simps)
      have "trace (final (interact A ?c ?s3)) = trace ?s3 @ [Performed ?c]"
        using pg s2 by (simp add: interact_def on_page_def log_def split: option.split)
      with flow run evs s2 have "trace (final (dashboard_main A)) =
          trace s1 @ Shot ?p # [Printed ''Clicking Agentes...''] @ Performed ?c # (evs @ [PwStopped])"
        by (simp add: log_def)
      then show ?thesis by blast
    next
      case shot: (Exc e s2)
      then have "trace s2 = trace s1"
        by (auto simp: screenshot_def on_page_def split: option.splits if_splits)
      moreover have "seqs ?body ?s0 = Exc e s2"
        by (simp only: seqs_append [of ?pre] Ok outcome.case
            seqs_Cons_Exc [where f = "screenshot A ?p", OF shot])
      ultimately show ?thesis using flow t1 by auto
    next
      case (Ret s2)
      with no_return_calls(9) [of A ?p] show ?thesis unfolding no_return_def by blast
    qed
  next
    case (Exc e s1)
    have "seqs ?body ?s0 = Exc e s1" by (simp only: seqs_append [of ?pre] Exc outcome.case)
    with flow pre Exc show ?thesis by auto
  next
    case (Ret s1)
    have "no_return (seqs ?pre)" by (simp add: no_return_seqs no_return_calls)
    with Ret show ?thesis unfolding no_return_def by blast
  qed
qed

text \<open>C1. Resource release in the dashboard flow: on every exit path the
  \<open>with sync_playwright()\<close> block stops the Playwright driver, while the explicit
  \<open>browser.close()\<close> runs exactly when the flow passes; on a failed assertion it
  is skipped.\<close>

theorem dashboard_cleanup:
  "\<not> driver (final (dashboard_main A)) \<and>
   (BrowserClosed \<in> set (trace (final (dashboard_main A))) \<longleftrightarrow> \<not> is_exc (dashboard_main A))"
  unfolding dashboard_unfold
  by (simp split: option.splits sum.splits outcome.splits)

text \<open>C2. The dashboard flow's contract: it passes exactly when the browser
  launches, the dashboard loads and settles, the five section headings named by
  the specification become visible in turn (each within the default timeout
  counted from the time the previous one passed), the screenshot can be written,
  clicking "Agentes" succeeds and, once the network settles again, the heading
  "Meus Agentes de IA" becomes visible.  No route is registered, so every request
  of the application goes to the real backend.\<close>

theorem dashboard_contract:
  "\<not> is_exc (dashboard_main A) \<longleftrightarrow>
   can_launch A \<and>
   (case nav A ''http://localhost:5173/dashboard'' Backend of
      Inl msg \<Rightarrow> False
    | Inr d1 \<Rightarrow>
        (case settle A d1 Backend of
           None \<Rightarrow> False
         | Some d2 \<Rightarrow>
             checks_pass A d2 0 (map heading dashboard_sections) default_timeout \<noteq> None \<and>
             writable A ''verification/dashboard_restored.png'' \<and>
             (case perform A d2 Backend (Click (heading ''Agentes'')) of
                None \<Rightarrow> False
              | Some d3 \<Rightarrow>
                  (case settle A d3 Backend of
                     None \<Rightarrow> False
                   | Some d4 \<Rightarrow>
                       poll (\<lambda>t. shown A d4 t (heading ''Meus Agentes de IA''))
                         poll_intervals default_timeout 0 \<noteq> None))))"
proof (cases "can_launch A")
  case False
  then show ?thesis by (simp add: dashboard_run)
next
  case launch: True
  show ?thesis
  proof (cases "nav A ''http://localhost:5173/dashboard'' Backend")
    case (Inl msg)
    with launch show ?thesis by (simp add: dashboard_run)
  next
    case (Inr d1)
    show ?thesis
    proof (cases "settle A d1 Backend")
      case None
      with launch Inr show ?thesis by (simp add: dashboard_run)
    next
      case (Some d2)
      note pre = launch Inr Some
      show ?thesis
      proof (cases "checks_pass A d2 0 (map heading dashboard_sections) default_timeout")
        case None
        with pre show ?thesis by (simp add: dashboard_run)
      next
        case (Some c)
        note pre = pre Some
        show ?thesis
        proof (cases "writable A ''verification/dashboard_restored.png''")
          case False
          with pre show ?thesis by (simp add: dashboard_run)
        next
          case True
          note pre = pre True
          show ?thesis
          proof (cases "perform A d2 Backend (Click (heading ''Agentes''))")
            case None
            with pre show ?thesis by (simp add: dashboard_run)
          next
            case (Some d3)
            note pre = pre Some
            show ?thesis
            proof (cases "settle A d3 Backend")
              case None
              with pre show ?thesis by (simp add: dashboard_run)
            next
              case (Some d4)
              with pre show ?thesis by (simp add: dashboard_run split: option.split)
            qed
          qed
        qed
      qed
    qed
  qed
qed

theorem dashboard_contract_witness:
  "\<not> is_exc (dashboard_main (xperience_app False 0 True (\<lambda>p. True)))"
  using dashboard_contract [of "xperience_app False 0 True (\<lambda>p. True)"]
  by (simp add: xperience_app_def xp_nav_def xp_perform_def xp_blank_def dashboard_sections_def
      xp_shown_def poll.simps)

end
