(* ===== verification/Agents.thy ===== *)
theory Agents
  imports Xperience
begin

text \<open>
  \<open>src/verification/verify_agents.py\<close>: \<open>verify_agents_flow\<close> opens the agents
  page, checks the list view, picks the entry-point control (the "Novo Agente"
  button of a populated list, or the "Criar Primeiro Agente" text of an empty
  one), opens the creation dialog, fills and submits the form and checks the
  chat view.  The navigation is wrapped in \<open>try: ... except Exception as e:
  print(...); return\<close> (lines 10-14).  \<open>create_btn\<close> is the choice of lines
  20-24 (a single \<open>is_visible()\<close> probe), \<open>open_modal\<close> the statements of lines
  20-32 that use it, \<open>verify_agents_flow\<close> the whole function and \<open>agents_main\<close> the entry point.
\<close>

definition agents_navigate :: "'d app \<Rightarrow> 'd st stmt" where
  "agents_navigate A =
     seqs [print ''Navigating to /agents...'',
           try_except (goto A ''http://localhost:5173/agents'')
             (\<lambda>e. seqs [print (''Error navigating: '' @ exn_str e), return])]"

definition agents_list_view :: "'d app \<Rightarrow> 'd st stmt" where
  "agents_list_view A =
     seqs [print ''Verifying List View...'',
           expect_visible A (GetByText ''Meus Agentes'') default_timeout]"

definition create_btn :: "'d app \<Rightarrow> 'd st \<Rightarrow> locator" where
  "create_btn A s =
     (let b = First (GetByRole Button (Some ''Novo Agente''))
      in if \<not> is_visible A b s then GetByText ''Criar Primeiro Agente'' else b)"

definition open_modal :: "'d app \<Rightarrow> 'd st stmt" where
  "open_modal A s =
     (let b = create_btn A s
      in seqs [expect_visible A b default_timeout,
               print ''Opening Modal...'',
               interact A (Click b),
               expect_visible A (GetByText ''Criar Novo Agente'') default_timeout]
           (log (Probed (First (GetByRole Button (Some ''Novo Agente'')))) s))"

definition agents_fill_form :: "'d app \<Rightarrow> 'd st stmt" where
  "agents_fill_form A =
     seqs [print ''Filling Form...'',
           interact A (Fill (GetByPlaceholder ''Ex: Consultor de Vendas'') ''Playwright Bot''),
           interact A (Fill (GetByPlaceholder ''Ex: Especialista em Marketing'') ''Tester''),
           interact A (SelectOption (Css ''select'') (OptValue ''new_project''))]"

definition agents_submit :: "'d app \<Rightarrow> 'd st stmt" where
  "agents_submit A =
     seqs [print ''Submitting...'', interact A (Click (GetByRole Button (Some ''Criar Agente'')))]"

definition agents_verify_chat :: "'d app \<Rightarrow> 'd st stmt" where
  "agents_verify_chat A =
     seqs [print ''Verifying Chat...'',
           expect_visible A (heading ''Playwright Bot'') default_timeout,
           expect_visible A (GetByPlaceholder ''Digite sua mensagem...'') default_timeout]"

definition agents_screenshot :: "'d app \<Rightarrow> 'd st stmt" where
  "agents_screenshot A =
     seqs [print ''Taking screenshot...'', screenshot A ''/home/jules/verification/agents_flow.png'']"

definition verify_agents_flow :: "'d app \<Rightarrow> 'd st stmt" where
  "verify_agents_flow A =
     with_playwright (seqs [
       launch A,
       new_page A,
       agents_navigate A,
       agents_list_view A,
       open_modal A,
       agents_fill_form A,
       agents_submit A,
       agents_verify_chat A,
       agents_screenshot A,
       browser_close,
       print ''Verification complete.''])"

definition agents_main :: "'d app \<Rightarrow> 'd st outcome" where
  "agents_main A = call_fn (verify_agents_flow A) init_st"

lemmas agents_unfold =
  agents_main_def verify_agents_flow_def with_playwright_def call_fn_def with_stmt_def
  launch_def new_page_def goto_def print_def on_page_def log_def init_st_def
  try_except_def return_def agents_navigate_def

lemmas agents_sections =
  agents_fill_form_def agents_submit_def agents_verify_chat_def agents_screenshot_def

text \<open>The probe and what the dialog step does with it, from any state whose page
  is the list view: the chosen control is expected, the other is never clicked.\<close>

lemma open_modal_choice:
  assumes "page s = Some d" and "Performed (Click other) \<notin> set (trace s)"
    and "other = (if shown A d (clock s) (First (GetByRole Button (Some ''Novo Agente'')))
              then GetByText ''Criar Primeiro Agente''
              else First (GetByRole Button (Some ''Novo Agente'')))"
  shows "Expected (if shown A d (clock s) (First (GetByRole Button (Some ''Novo Agente'')))
                   then First (GetByRole Button (Some ''Novo Agente''))
                   else GetByText ''Criar Primeiro Agente'') default_timeout
           \<in> set (trace (final (open_modal A s))) \<and>
         Performed (Click other) \<notin> set (trace (final (open_modal A s)))"
  using assms
  by (cases "shown A d (clock s) (First (GetByRole Button (Some ''Novo Agente'')))")
    (simp_all add: open_modal_def create_btn_def is_visible_def Let_def expect_visible_apply
      interact_def print_def on_page_def log_def split: option.split)

text \<open>The agents flow never waits for the load state: no \<open>wait_for_load_state\<close>
  appears in the script, so no run logs one.\<close>

lemma open_modal_emits:
  fixes A :: "'d app"
  assumes "P (Probed (First (GetByRole Button (Some ''Novo Agente''))))"
    and "\<forall>l t. P (Expected l t)" and "\<forall>m. P (Printed m)" and "\<forall>i. P (Performed i)"
  shows "emits P (open_modal A)"
  unfolding emits_def
proof
  fix s :: "'d st"
  let ?s' = "log (Probed (First (GetByRole Button (Some ''Novo Agente'')))) s"
  let ?b = "create_btn A s"
  have "emits P (seqs [expect_visible A ?b default_timeout, print ''Opening Modal...'',
                       interact A (Click ?b),
                       expect_visible A (GetByText ''Criar Novo Agente'') default_timeout])"
    using assms by (simp add: emits_seqs emits_calls)
  then obtain evs where "trace (final (seqs [expect_visible A ?b default_timeout,
      print ''Opening Modal...'', interact A (Click ?b),
      expect_visible A (GetByText ''Criar Novo Agente'') default_timeout] ?s')) = trace ?s' @ evs"
      "\<forall>e\<in>set evs. P e"
    by (blast dest: emits_final)
  with assms(1) show "\<exists>evs. trace (final (open_modal A s)) = trace s @ evs \<and> (\<forall>e\<in>set evs. P e)"
    by (intro exI [of _ "Probed (First (GetByRole Button (Some ''Novo Agente''))) # evs"])
      (simp add: open_modal_def Let_def log_def)
qed

lemma agents_no_idle: "LoadIdle \<notin> set (trace (final (agents_main A)))"
proof -
  have "emits (\<lambda>e. e \<noteq> LoadIdle)
          (seqs [launch A, new_page A, agents_navigate A, agents_list_view A, open_modal A,
                 agents_fill_form A, agents_submit A, agents_verify_chat A, agents_screenshot A,
                 browser_close, print ''Verification complete.''])"
    by (simp add: emits_seqs emits_calls open_modal_emits agents_navigate_def agents_list_view_def
        agents_sections emits_try_except emits_return)
  from emits_all [OF this, of "log PwStarted ((init_st :: 'a st)\<lparr>driver := True\<rparr>)"]
  show ?thesis
    by (auto simp add: agents_main_def call_fn_final verify_agents_flow_def with_playwright_final
        log_def init_st_def simp del: seqs.simps)
qed

text \<open>C3. A navigation error makes the agents flow pass without checking
  anything: the \<open>except\<close> branch prints the error and returns, so the function
  completes normally (exit status 0) after no assertion at all, and the browser
  is left open (\<open>browser.close()\<close> is skipped; only the driver is stopped).\<close>

theorem agents_nav_error_passes:
  assumes "can_launch A" and "nav A ''http://localhost:5173/agents'' Backend = Inl msg"
  shows "agents_main A =
           Ok \<lparr>driver = False, browser = True, page = Some (blank A), clock = 0, routes = [],
               trace = [PwStarted, Launched, PageOpened, Printed ''Navigating to /agents...'',
                        Navigated ''http://localhost:5173/agents'',
                        Printed (''Error navigating: '' @ msg), PwStopped]\<rparr>
         \<and> exit_status (agents_main A) = 0"
  using assms by (simp add: agents_unfold)

theorem agents_nav_error_passes_witness:
  "agents_main (xperience_app False 0 False (\<lambda>p. True)) =
     Ok \<lparr>driver = False, browser = True, page = Some xp_blank, clock = 0, routes = [],
         trace = [PwStarted, Launched, PageOpened, Printed ''Navigating to /agents...'',
                  Navigated ''http://localhost:5173/agents'',
                  Printed (''Error navigating: net::ERR_CONNECTION_REFUSED at http://localhost:5173/agents''),
                  PwStopped]\<rparr>"
  using agents_nav_error_passes [of "xperience_app False 0 False (\<lambda>p. True)"
      "''net::ERR_CONNECTION_REFUSED at http://localhost:5173/agents''"]
  by (simp add: xperience_app_def xp_nav_def)

text \<open>C4. The entry-point control is chosen by one instantaneous probe: when the
  list view has been verified at time \<open>c\<close>, the flow expects the "Novo Agente"
  button if it is visible at that very instant and the "Criar Primeiro Agente"
  text otherwise, and it never clicks the control it did not choose, even if
  that one becomes visible later.\<close>

theorem agents_entry_single_probe:
  assumes "can_launch A" and "nav A ''http://localhost:5173/agents'' Backend = Inr d"
    and "poll (\<lambda>t. shown A d t (GetByText ''Meus Agentes'')) poll_intervals default_timeout 0 = Some c"
  shows "Expected (if shown A d c (First (GetByRole Button (Some ''Novo Agente'')))
                   then First (GetByRole Button (Some ''Novo Agente''))
                   else GetByText ''Criar Primeiro Agente'') default_timeout
           \<in> set (trace (final (agents_main A))) \<and>
         Performed (Click (if shown A d c (First (GetByRole Button (Some ''Novo Agente'')))
                           then GetByText ''Criar Primeiro Agente''
                           else First (GetByRole Button (Some ''Novo Agente''))))
           \<notin> set (trace (final (agents_main A)))"
proof -
  let ?o = "if shown A d c (First (GetByRole Button (Some ''Novo Agente'')))
            then GetByText ''Criar Primeiro Agente'' else First (GetByRole Button (Some ''Novo Agente''))"
  let ?s0 = "log PwStarted ((init_st :: 'd st)\<lparr>driver := True\<rparr>)"
  let ?pre = "[launch A, new_page A, agents_navigate A, agents_list_view A]"
  let ?post = "[agents_fill_form A, agents_submit A, agents_verify_chat A, agents_screenshot A,
                browser_close, print ''Verification complete.'']"
  obtain s1 where pre: "seqs ?pre ?s0 = Ok s1" and s1: "page s1 = Some d" "clock s1 = c"
    "Performed (Click ?o) \<notin> set (trace s1)"
    using assms by (simp add: agents_unfold agents_list_view_def expect_visible_apply)
  have flow: "trace (final (agents_main A)) = trace (final (seqs (?pre @ open_modal A # ?post) ?s0)) @ [PwStopped]"
    by (simp add: agents_main_def call_fn_final verify_agents_flow_def with_playwright_def
        with_stmt_final log_def)
  have choice: "Expected (if shown A d c (First (GetByRole Button (Some ''Novo Agente'')))
                   then First (GetByRole Button (Some ''Novo Agente''))
                   else GetByText ''Criar Primeiro Agente'') default_timeout
           \<in> set (trace (final (open_modal A s1))) \<and>
         Performed (Click ?o) \<notin> set (trace (final (open_modal A s1)))"
    using open_modal_choice [OF s1(1,3)] s1(2) by simp
  have post1: "\<forall>g\<in>set ?post. emits (\<lambda>_. True) g"
    and post2: "\<forall>g\<in>set ?post. emits (\<lambda>x. x \<noteq> Performed (Click ?o)) g"
    by (simp_all add: agents_sections emits_seqs emits_calls)
  from choice seqs_prefix_tail_in [OF pre post1]
  have i: "Expected (if shown A d c (First (GetByRole Button (Some ''Novo Agente'')))
                   then First (GetByRole Button (Some ''Novo Agente''))
                   else GetByText ''Criar Primeiro Agente'') default_timeout
           \<in> set (trace (final (seqs (?pre @ open_modal A # ?post) ?s0)))" by blast
  from choice seqs_prefix_tail_notin [OF pre post2]
  have n: "Performed (Click ?o) \<notin> set (trace (final (seqs (?pre @ open_modal A # ?post) ?s0)))"
    by blast
  from i n show ?thesis unfolding flow by (simp only: set_append Un_iff) simp
qed

theorem agents_entry_single_probe_witness:
  "Expected (GetByText ''Criar Primeiro Agente'') default_timeout
     \<in> set (trace (final (agents_main (xperience_app True 300 True (\<lambda>p. True))))) \<and>
   Performed (Click (First (GetByRole Button (Some ''Novo Agente''))))
     \<notin> set (trace (final (agents_main (xperience_app True 300 True (\<lambda>p. True)))))"
  using agents_entry_single_probe [of "xperience_app True 300 True (\<lambda>p. True)"
      "xp_blank\<lparr>view := XAgents\<rparr>" 0]
  by (simp add: xperience_app_def xp_nav_def xp_shown_def xp_blank_def poll.simps)

text \<open>C5. The probe races the page: on a populated agent list whose "Novo Agente"
  button renders \<open>delay\<close> ms after the list label (with \<open>delay\<close> small enough
  that polling would find it well within the timeout), the flow falls back to
  the empty-state text, which never appears, and fails.\<close>

theorem agents_late_button_fails:
  assumes "0 < delay" and "delay + 1000 \<le> default_timeout"
  shows "is_exc (agents_main (xperience_app True delay True (\<lambda>p. True))) \<and>
         poll (\<lambda>t. shown (xperience_app True delay True (\<lambda>p. True)) (xp_blank\<lparr>view := XAgents\<rparr>) t
                     (First (GetByRole Button (Some ''Novo Agente''))))
           poll_intervals default_timeout 0 \<noteq> None"
proof
  let ?A = "xperience_app True delay True (\<lambda>p. True)"
  let ?d = "xp_blank\<lparr>view := XAgents\<rparr>"
  have never: "poll (\<lambda>t. shown ?A ?d t (GetByText ''Criar Primeiro Agente'')) poll_intervals
                 default_timeout 0 = None"
    by (rule poll_never) (simp add: xperience_app_def xp_shown_def xp_blank_def)
  have list: "poll (\<lambda>t. shown ?A ?d t (GetByText ''Meus Agentes'')) poll_intervals
                default_timeout 0 = Some 0"
    by (simp add: poll.simps xperience_app_def xp_shown_def xp_blank_def)
  show "is_exc (agents_main ?A)"
    using assms never list
    by (simp add: agents_unfold agents_list_view_def open_modal_def create_btn_def is_visible_def
        Let_def expect_visible_apply xperience_app_def xp_nav_def xp_shown_def)
  have "\<exists>t'. poll (\<lambda>t. shown ?A ?d t (First (GetByRole Button (Some ''Novo Agente''))))
           poll_intervals default_timeout 0 = Some t' \<and> t' \<le> max 0 (delay + 1000)"
    using assms
    by (intro poll_stable) (auto simp: poll_intervals_def xperience_app_def xp_shown_def xp_blank_def)
  then show "poll (\<lambda>t. shown ?A ?d t (First (GetByRole Button (Some ''Novo Agente''))))
           poll_intervals default_timeout 0 \<noteq> None" by auto
qed

theorem agents_late_button_fails_witness:
  "is_exc (agents_main (xperience_app True 300 True (\<lambda>p. True)))"
  using agents_late_button_fails [of 300] by (simp add: default_timeout_def)

text \<open>C13. The hard-coded screenshot path decides the agents flow: against the
  reference application with an empty agent list, where every check passes, the
  flow passes exactly when \<open>/home/jules/verification/agents_flow.png\<close> can be
  written; on any other machine it fails after the last check.\<close>

theorem agents_hardcoded_screenshot:
  "\<not> is_exc (agents_main (xperience_app False 0 True wr)) \<longleftrightarrow>
   wr ''/home/jules/verification/agents_flow.png''"
  by (simp add: agents_unfold agents_list_view_def open_modal_def create_btn_def is_visible_def
      Let_def agents_sections expect_visible_apply interact_def screenshot_def browser_close_def
      xperience_app_def xp_nav_def xp_perform_def xp_shown_def xp_blank_def poll.simps)

end
