(* ===== verification/Transparency.thy ===== *)
theory Transparency
  imports Xperience Json
begin

text \<open>
  \<open>src/verification/verify_transparency.py\<close>: \<open>run(playwright)\<close> launches a
  browser, registers two mocked API routes on the page, and inside \<open>try\<close> checks
  the public transparency page, submits the contact form and checks the leads
  manager; \<open>except\<close> prints the error, takes a diagnostic screenshot and
  re-raises; \<open>finally\<close> closes the browser.  The mocks are the records
  \<open>submissions_mock\<close> and \<open>leads_mock\<close> with their handlers (the
  \<open>lambda route: route.fulfill(...)\<close> of lines 9-20); \<open>transparency_setup\<close> is
  lines 4-20, \<open>transparency_page\<close>, \<open>contact_form\<close> and \<open>leads_manager\<close> the three
  numbered sections of the \<open>try\<close> block, \<open>transparency_error\<close> the \<open>except\<close>
  block, \<open>run\<close> the function and \<open>transparency_main\<close> the \<open>__main__\<close> block, which
  is where the \<open>with sync_playwright()\<close> statement is.
\<close>

definition submissions_body :: string where
  \<open>submissions_body = ''{"submissions": [{"id": "sub_123", "nomeAnon": "Jo**", "emailAnon": "j**@e**.com", "mensagem": "Test Message Public View", "data": "2023-10-27T10:00:00Z"}], "total": 1}''\<close>

definition submissions_mock :: mock where
  "submissions_mock =
     \<lparr>status = 200, content_type = ''application/json'', body = submissions_body\<rparr>"

definition submissions_handler :: handler where
  "submissions_handler = (\<lambda>route. submissions_mock)"

definition leads_body :: string where
  \<open>leads_body = ''{"success": true, "id": "sub_generated_id"}''\<close>

definition leads_mock :: mock where
  "leads_mock = \<lparr>status = 200, content_type = ''application/json'', body = leads_body\<rparr>"

definition leads_handler :: handler where
  "leads_handler = (\<lambda>route. leads_mock)"

definition transparency_setup :: "'d app \<Rightarrow> 'd st stmt" where
  "transparency_setup A =
     seqs [launch A,
           new_context,
           new_page A,
           page_route ''**/api/submissions'' submissions_handler,
           page_route ''**/api/leads'' leads_handler]"

definition transparency_page :: "'d app \<Rightarrow> 'd st stmt" where
  "transparency_page A =
     seqs [print ''Navigating to Transparency Page...'',
           goto A ''http://localhost:4173/transparencia'',
           expect_visible A (GetByText (''Transpar'' @ e_circ # ''ncia Xperience'')) 10000,
           expect_visible A (GetByText ''Test Message Public View'') default_timeout,
           screenshot A ''verification/transparency_page.png'',
           print ''Transparency Page Verified.'']"

definition contact_form :: "'d app \<Rightarrow> 'd st stmt" where
  "contact_form A =
     seqs [print ''Navigating to Contact Page...'',
           goto A ''http://localhost:4173/contact'',
           interact A (Fill (Within (First (Css ''form'')) (GetByPlaceholder ''Nome'')) ''John Doe''),
           interact A (Fill (Within (First (Css ''form'')) (GetByPlaceholder ''E-mail''))
                         ''john@example.com''),
           interact A (Fill (Within (First (Css ''form'')) (GetByPlaceholder ''Telefone''))
                         ''1234567890''),
           interact A (SelectOption (Css ''select'') (OptValueOrLabel ''retail'')),
           interact A (Fill (Css ''textarea'') ''I need help with AI.''),
           interact A (Check (GetByRole Checkbox None)),
           interact A (Click (GetByRole Button (Some ''Enviar mensagem''))),
           expect_visible A (GetByText ''Mensagem enviada com sucesso!'') default_timeout,
           expect_visible A (GetByText (''ID P'' @ u_acute # ''blico: sub_generated_id''))
             default_timeout,
           screenshot A ''verification/contact_success.png'',
           print ''Contact Form Verified.'']"

definition leads_manager :: "'d app \<Rightarrow> 'd st stmt" where
  "leads_manager A =
     seqs [print ''Navigating to Leads Manager...'',
           goto A ''http://localhost:4173/leads'',
           expect_visible A (GetByText (''Gerenciador de Submiss'' @ o_tilde # ''es'')) default_timeout,
           expect_visible A (GetByText ''sub_123'') default_timeout,
           screenshot A ''verification/leads_manager.png'',
           print ''Leads Manager Verified.'']"

definition transparency_error :: "'d app \<Rightarrow> exn \<Rightarrow> 'd st stmt" where
  "transparency_error A e =
     seqs [print (''Verification failed: '' @ exn_str e),
           screenshot A ''verification/error.png'',
           raise e]"

definition run :: "'d app \<Rightarrow> 'd st stmt" where
  "run A =
     seqs [transparency_setup A,
           try_except_finally
             (seqs [transparency_page A, contact_form A, leads_manager A])
             (transparency_error A)
             browser_close]"

definition transparency_main :: "'d app \<Rightarrow> 'd st outcome" where
  "transparency_main A = with_playwright (call_fn (run A)) init_st"

lemmas transparency_sections =
  transparency_page_def contact_form_def leads_manager_def

lemma run_unfold:
  "run A s =
     (case transparency_setup A s of
        Ok s1 \<Rightarrow> try_except_finally
                   (seqs [transparency_page A, contact_form A, leads_manager A])
                   (transparency_error A) browser_close s1
      | r \<Rightarrow> r)"
  by (simp add: run_def split: outcome.split)

lemma transparency_setup_run:
  "can_launch A \<Longrightarrow> page s = None \<Longrightarrow>
   transparency_setup A s =
     Ok (s\<lparr>browser := True, page := Some (blank A),
           routes := [(''**/api/leads'', leads_handler), (''**/api/submissions'', submissions_handler)],
           trace := trace s @ [Launched, ContextOpened, PageOpened,
                               Routed ''**/api/submissions'', Routed ''**/api/leads'']\<rparr>)"
  by (simp add: transparency_setup_def launch_def new_context_def new_page_def page_route_def
      on_page_def log_def add_route_def)

lemma transparency_setup_fail:
  "\<not> can_launch A \<Longrightarrow>
   transparency_setup A s = Exc (PwError ''BrowserType.launch: Executable doesn't exist'') s"
  by (simp add: transparency_setup_def launch_def)

lemma transparency_body_page:
  "preserves (\<lambda>s. page s \<noteq> None) (seqs [transparency_page A, contact_form A, leads_manager A])"
  by (simp del: not_None_eq add: transparency_sections preserves_seqs preserves_page_calls)

lemma transparency_body_no_return:
  "no_return (seqs [transparency_page A, contact_form A, leads_manager A])"
  by (simp add: transparency_sections no_return_seqs no_return_calls)

lemma transparency_try_routes:
  "preserves (\<lambda>s. routes s = rs)
     (try_except_finally (seqs [transparency_page A, contact_form A, leads_manager A])
        (transparency_error A) browser_close)"
  by (intro preserves_try_except_finally allI)
    (simp_all add: transparency_sections transparency_error_def preserves_seqs
      preserves_routes_calls preserves_raise)

text \<open>The route table after setup, and what it answers: requests whose URL ends
  with \<open>/api/leads\<close> get the leads mock, those ending with
  \<open>/api/submissions\<close> the submissions mock, whatever their method and body;
  everything else goes to the backend.\<close>

lemma transparency_dispatch:
  "route_fetch [(''**/api/leads'', leads_handler), (''**/api/submissions'', submissions_handler)] r =
     (if ends_with ''/api/leads'' (req_url r) then Fulfilled leads_mock
      else if ends_with ''/api/submissions'' (req_url r) then Fulfilled submissions_mock
      else Backend r)"
proof -
  have l: "glob_match ''**/api/leads'' u \<longleftrightarrow> ends_with ''/api/leads'' u" for u
    by (rule glob_match_deep_literal) simp
  have s: "glob_match ''**/api/submissions'' u \<longleftrightarrow> ends_with ''/api/submissions'' u" for u
    by (rule glob_match_deep_literal) simp
  show ?thesis by (simp add: l s leads_handler_def submissions_handler_def)
qed

lemma transparency_routes_final:
  assumes "can_launch A"
  shows "routes (final (transparency_main A)) =
           [(''**/api/leads'', leads_handler), (''**/api/submissions'', submissions_handler)]"
proof -
  let ?R = "[(''**/api/leads'', leads_handler), (''**/api/submissions'', submissions_handler)]"
  let ?s1 = "\<lparr>driver = True, browser = True, page = Some (blank A), clock = 0, routes = ?R,
               trace = [PwStarted, Launched, ContextOpened, PageOpened,
                        Routed ''**/api/submissions'', Routed ''**/api/leads'']\<rparr>"
  have "routes (final (try_except_finally (seqs [transparency_page A, contact_form A, leads_manager A])
          (transparency_error A) browser_close ?s1)) = ?R"
    by (rule preservesD [OF transparency_try_routes]) simp
  with assms show ?thesis
    by (simp add: transparency_main_def with_playwright_def with_stmt_final call_fn_final
        run_unfold transparency_setup_run init_st_def log_def)
qed

text \<open>The \<open>except\<close> and \<open>finally\<close> blocks of \<open>run\<close> on an exception raised with
  a page open: the error is printed, the screenshot attempted, the browser
  closed, and the exception re-raised, or replaced by the screenshot's own.\<close>

lemma transparency_except_path:
  assumes "b s = Exc e0 s2" and "page s2 = Some d"
  shows "\<exists>s3. try_except_finally b (transparency_error A) browser_close s =
           Exc (if writable A ''verification/error.png'' then e0
                else PwError (''EACCES: permission denied, open '' @ ''verification/error.png'')) s3 \<and>
         trace s3 = trace s2 @ Printed (''Verification failed: '' @ exn_str e0) #
           (if writable A ''verification/error.png'' then [Shot ''verification/error.png''] else []) @
           [BrowserClosed]"
  using assms
  by (simp add: try_except_finally_def try_except_def run_finally_def transparency_error_def
      print_def screenshot_def on_page_def raise_def log_def browser_close_def)

text \<open>What each section appends to the trace when it completes, and the whole
  \<open>try\<close> body on success: the three success screenshots and never the
  diagnostic one.\<close>

lemma transparency_page_ok:
  "Ok s' = transparency_page A s \<longrightarrow>
   trace s' = trace s @
     [Printed ''Navigating to Transparency Page...'', Navigated ''http://localhost:4173/transparencia'',
      Expected (GetByText (''Transpar'' @ e_circ # ''ncia Xperience'')) 10000,
      Expected (GetByText ''Test Message Public View'') default_timeout,
      Shot ''verification/transparency_page.png'', Printed ''Transparency Page Verified.'']"
  unfolding transparency_page_def pw_call_defs
  by (simp split: option.splits sum.splits outcome.splits)

lemma contact_form_ok:
  "Ok s' = contact_form A s \<longrightarrow>
   trace s' = trace s @
     [Printed ''Navigating to Contact Page...'', Navigated ''http://localhost:4173/contact'',
      Performed (Fill (Within (First (Css ''form'')) (GetByPlaceholder ''Nome'')) ''John Doe''),
      Performed (Fill (Within (First (Css ''form'')) (GetByPlaceholder ''E-mail'')) ''john@example.com''),
      Performed (Fill (Within (First (Css ''form'')) (GetByPlaceholder ''Telefone'')) ''1234567890''),
      Performed (SelectOption (Css ''select'') (OptValueOrLabel ''retail'')),
      Performed (Fill (Css ''textarea'') ''I need help with AI.''),
      Performed (Check (GetByRole Checkbox None)),
      Performed (Click (GetByRole Button (Some ''Enviar mensagem''))),
      Expected (GetByText ''Mensagem enviada com sucesso!'') default_timeout,
      Expected (GetByText (''ID P'' @ u_acute # ''blico: sub_generated_id'')) default_timeout,
      Shot ''verification/contact_success.png'', Printed ''Contact Form Verified.'']"
  unfolding contact_form_def pw_call_defs
  by (simp split: option.splits sum.splits outcome.splits)

lemma leads_manager_ok:
  "Ok s' = leads_manager A s \<longrightarrow>
   trace s' = trace s @
     [Printed ''Navigating to Leads Manager...'', Navigated ''http://localhost:4173/leads'',
      Expected (GetByText (''Gerenciador de Submiss'' @ o_tilde # ''es'')) default_timeout,
      Expected (GetByText ''sub_123'') default_timeout,
      Shot ''verification/leads_manager.png'', Printed ''Leads Manager Verified.'']"
  unfolding leads_manager_def pw_call_defs
  by (simp split: option.splits sum.splits outcome.splits)


text \<open>After a successful launch, the run is the \<open>try\<close> statement on the state
  the setup leaves, inside the call boundary and the \<open>with\<close> exit.\<close>

lemma transparency_main_launched:
  "can_launch A \<Longrightarrow>
   transparency_main A =
     map_outcome (\<lambda>s. log PwStopped (s\<lparr>driver := False\<rparr>))
       (call_fn (try_except_finally (seqs [transparency_page A, contact_form A, leads_manager A])
                   (transparency_error A) browser_close)
          \<lparr>driver = True, browser = True, page = Some (blank A), clock = 0,
           routes = [(''**/api/leads'', leads_handler), (''**/api/submissions'', submissions_handler)],
           trace = [PwStarted, Launched, ContextOpened, PageOpened,
                    Routed ''**/api/submissions'', Routed ''**/api/leads'']\<rparr>)"
  by (simp add: transparency_main_def with_playwright_def with_stmt_def call_fn_def run_unfold
      transparency_setup_run init_st_def log_def)

lemma transparency_body_ok:
  assumes "seqs [transparency_page A, contact_form A, leads_manager A] s = Ok s'"
  shows "trace s' = trace s @
     [Printed ''Navigating to Transparency Page...'', Navigated ''http://localhost:4173/transparencia'',
      Expected (GetByText (''Transpar'' @ e_circ # ''ncia Xperience'')) 10000,
      Expected (GetByText ''Test Message Public View'') default_timeout,
      Shot ''verification/transparency_page.png'', Printed ''Transparency Page Verified.'',
      Printed ''Navigating to Contact Page...'', Navigated ''http://localhost:4173/contact'',
      Performed (Fill (Within (First (Css ''form'')) (GetByPlaceholder ''Nome'')) ''John Doe''),
      Performed (Fill (Within (First (Css ''form'')) (GetByPlaceholder ''E-mail'')) ''john@example.com''),
      Performed (Fill (Within (First (Css ''form'')) (GetByPlaceholder ''Telefone'')) ''1234567890''),
      Performed (SelectOption (Css ''select'') (OptValueOrLabel ''retail'')),
      Performed (Fill (Css ''textarea'') ''I need help with AI.''),
      Performed (Check (GetByRole Checkbox None)),
      Performed (Click (GetByRole Button (Some ''Enviar mensagem''))),
      Expected (GetByText ''Mensagem enviada com sucesso!'') default_timeout,
      Expected (GetByText (''ID P'' @ u_acute # ''blico: sub_generated_id'')) default_timeout,
      Shot ''verification/contact_success.png'', Printed ''Contact Form Verified.'',
      Printed ''Navigating to Leads Manager...'', Navigated ''http://localhost:4173/leads'',
      Expected (GetByText (''Gerenciador de Submiss'' @ o_tilde # ''es'')) default_timeout,
      Expected (GetByText ''sub_123'') default_timeout,
      Shot ''verification/leads_manager.png'', Printed ''Leads Manager Verified.'']"
proof -
  from assms [unfolded seqs_Cons_eq_Ok seqs.simps(1) outcome.inject] obtain s1 s2 where
    "transparency_page A s = Ok s1" "contact_form A s1 = Ok s2" "leads_manager A s2 = Ok s'"
    by blast
  then show ?thesis
    using transparency_page_ok [of s1 A s] contact_form_ok [of s2 A s1] leads_manager_ok [of s' A s2]
    by simp
qed

lemma transparency_body_no_error_shot:
  "emits (\<lambda>e. e \<noteq> Shot ''verification/error.png'')
     (seqs [transparency_page A, contact_form A, leads_manager A])"
  by (simp add: transparency_sections emits_seqs emits_calls)

lemma transparency_success:
  assumes "\<not> is_exc (transparency_main A)"
  shows "can_launch A \<and>
         (\<exists>s2. seqs [transparency_page A, contact_form A, leads_manager A]
                 \<lparr>driver = True, browser = True, page = Some (blank A), clock = 0,
                  routes = [(''**/api/leads'', leads_handler), (''**/api/submissions'', submissions_handler)],
                  trace = [PwStarted, Launched, ContextOpened, PageOpened,
                           Routed ''**/api/submissions'', Routed ''**/api/leads'']\<rparr> = Ok s2 \<and>
               trace (final (transparency_main A)) = trace s2 @ [BrowserClosed, PwStopped])"
proof -
  have launch: "can_launch A"
    using assms by (cases "can_launch A")
      (simp_all add: transparency_main_def with_playwright_def with_stmt_def call_fn_def run_unfold
        transparency_setup_fail)
  let ?body = "seqs [transparency_page A, contact_form A, leads_manager A]"
  let ?s1 = "\<lparr>driver = True, browser = True, page = Some (blank A), clock = 0,
               routes = [(''**/api/leads'', leads_handler), (''**/api/submissions'', submissions_handler)],
               trace = [PwStarted, Launched, ContextOpened, PageOpened,
                        Routed ''**/api/submissions'', Routed ''**/api/leads'']\<rparr>"
  note main = transparency_main_launched [OF launch]
  show ?thesis
  proof (cases "?body ?s1")
    case (Ok s2)
    with launch main show ?thesis
      by (simp add: try_except_finally_def try_except_def run_finally_def browser_close_def
          call_fn_def log_def)
  next
    case (Ret s2)
    with transparency_body_no_return [of A] show ?thesis unfolding no_return_def by blast
  next
    case (Exc e0 s2)
    have "page (final (?body ?s1)) \<noteq> None"
      by (rule preservesD [OF transparency_body_page]) simp
    with Exc have "page s2 \<noteq> None" by (metis final.simps(3))
    then obtain d where d: "page s2 = Some d" by blast
    from transparency_except_path [of ?body ?s1, OF Exc d] obtain s3 where
      "try_except_finally ?body (transparency_error A) browser_close ?s1 = Exc
         (if writable A ''verification/error.png'' then e0
          else PwError (''EACCES: permission denied, open '' @ ''verification/error.png'')) s3"
      by blast
    with main assms show ?thesis by (simp add: call_fn_def)
  qed
qed

text \<open>The failure path after launch: the body raised \<open>e0\<close> in state \<open>s2\<close>, the
  \<open>except\<close> block printed it and attempted the screenshot, and the \<open>finally\<close> block
  and the \<open>with\<close> exit ran.\<close>

lemma transparency_failure_trace:
  assumes launch: "can_launch A" and exc: "transparency_main A = Exc e s"
  shows "\<exists>e0 s2.
           seqs [transparency_page A, contact_form A, leads_manager A]
             \<lparr>driver = True, browser = True, page = Some (blank A), clock = 0,
              routes = [(''**/api/leads'', leads_handler), (''**/api/submissions'', submissions_handler)],
              trace = [PwStarted, Launched, ContextOpened, PageOpened,
                       Routed ''**/api/submissions'', Routed ''**/api/leads'']\<rparr> = Exc e0 s2 \<and>
           e = (if writable A ''verification/error.png'' then e0
                else PwError (''EACCES: permission denied, open '' @ ''verification/error.png'')) \<and>
           trace s = trace s2 @ Printed (''Verification failed: '' @ exn_str e0) #
             (if writable A ''verification/error.png'' then [Shot ''verification/error.png''] else []) @
             [BrowserClosed, PwStopped]"
proof -
  let ?body = "seqs [transparency_page A, contact_form A, leads_manager A]"
  let ?s1 = "\<lparr>driver = True, browser = True, page = Some (blank A), clock = 0,
               routes = [(''**/api/leads'', leads_handler), (''**/api/submissions'', submissions_handler)],
               trace = [PwStarted, Launched, ContextOpened, PageOpened,
                        Routed ''**/api/submissions'', Routed ''**/api/leads'']\<rparr>"
  let ?leave = "\<lambda>s. log PwStopped (s\<lparr>driver := False\<rparr>)"
  note main = transparency_main_launched [OF launch]
  show ?thesis
  proof (cases "?body ?s1")
    case (Ok s2)
    with exc main show ?thesis
      by (simp add: try_except_finally_def try_except_def run_finally_def browser_close_def
          call_fn_def)
  next
    case (Ret s2)
    with transparency_body_no_return [of A] show ?thesis unfolding no_return_def by blast
  next
    case (Exc e0 s2)
    have "page (final (?body ?s1)) \<noteq> None"
      by (rule preservesD [OF transparency_body_page]) simp
    with Exc have "page s2 \<noteq> None" by (metis final.simps(3))
    then obtain d where d: "page s2 = Some d" by blast
    obtain s3 where s3:
        "try_except_finally ?body (transparency_error A) browser_close ?s1 =
           Exc (if writable A ''verification/error.png'' then e0
                else PwError (''EACCES: permission denied, open '' @ ''verification/error.png'')) s3"
        "trace s3 = trace s2 @ Printed (''Verification failed: '' @ exn_str e0) #
           (if writable A ''verification/error.png'' then [Shot ''verification/error.png''] else []) @
           [BrowserClosed]"
      using transparency_except_path [of ?body ?s1, OF Exc d] by blast
    have "transparency_main A =
            Exc (if writable A ''verification/error.png'' then e0
                 else PwError (''EACCES: permission denied, open '' @ ''verification/error.png''))
                (?leave s3)"
      by (simp only: main s3 call_fn_def outcome.case map_outcome.simps)
    with exc s3(2) Exc show ?thesis by (auto simp: log_def)
  qed
qed

text \<open>When each section raises: with a page open and the route table \<open>rs\<close>
  in place, each section raises exactly when its navigation fails, one of its
  actions fails, one of its checks times out or its screenshot cannot be
  written; the body raises exactly when one section does, and the run raises
  exactly when the browser does not launch or the body raises.\<close>

lemma transparency_page_exc:
  "page s \<noteq> None \<and> routes s = rs \<Longrightarrow>
   is_exc (transparency_page A s) \<longleftrightarrow>
   \<not> (case nav A ''http://localhost:4173/transparencia'' (route_fetch rs) of
         Inl msg \<Rightarrow> False
       | Inr d \<Rightarrow>
           (case poll (\<lambda>t. shown A d t (GetByText (''Transpar'' @ e_circ # ''ncia Xperience'')))
                   poll_intervals 10000 0 of
              None \<Rightarrow> False
            | Some c \<Rightarrow> poll (\<lambda>t. shown A d t (GetByText ''Test Message Public View''))
                          poll_intervals (c + default_timeout) c \<noteq> None) \<and>
           writable A ''verification/transparency_page.png'')"
  by (auto simp: transparency_page_def pw_call_defs split: option.splits sum.splits)

lemma leads_manager_exc:
  "page s \<noteq> None \<and> routes s = rs \<Longrightarrow>
   is_exc (leads_manager A s) \<longleftrightarrow>
   \<not> (case nav A ''http://localhost:4173/leads'' (route_fetch rs) of
         Inl msg \<Rightarrow> False
       | Inr d \<Rightarrow>
           checks_pass A d 0 [GetByText (''Gerenciador de Submiss'' @ o_tilde # ''es''),
                              GetByText ''sub_123''] default_timeout \<noteq> None \<and>
           writable A ''verification/leads_manager.png'')"
  by (auto simp: leads_manager_def pw_call_defs split: option.splits sum.splits)

lemma contact_form_exc:
  assumes "page s \<noteq> None \<and> routes s = rs"
  shows "is_exc (contact_form A s) \<longleftrightarrow>
   \<not> (case nav A ''http://localhost:4173/contact'' (route_fetch rs) of
         Inl msg \<Rightarrow> False
       | Inr d \<Rightarrow>
           (case performs A d (route_fetch rs)
                   [Fill (Within (First (Css ''form'')) (GetByPlaceholder ''Nome'')) ''John Doe'',
                    Fill (Within (First (Css ''form'')) (GetByPlaceholder ''E-mail'')) ''john@example.com'',
                    Fill (Within (First (Css ''form'')) (GetByPlaceholder ''Telefone'')) ''1234567890'',
                    SelectOption (Css ''select'') (OptValueOrLabel ''retail''),
                    Fill (Css ''textarea'') ''I need help with AI.'',
                    Check (GetByRole Checkbox None),
                    Click (GetByRole Button (Some ''Enviar mensagem''))] of
              None \<Rightarrow> False
            | Some d' \<Rightarrow>
                checks_pass A d' 0 [GetByText ''Mensagem enviada com sucesso!'',
                                    GetByText (''ID P'' @ u_acute # ''blico: sub_generated_id'')]
                  default_timeout \<noteq> None \<and>
                writable A ''verification/contact_success.png''))"
proof (cases "nav A ''http://localhost:4173/contact'' (route_fetch rs)")
  case (Inl msg)
  with assms show ?thesis by (auto simp: contact_form_def pw_call_defs)
next
  case (Inr d)
  let ?is = "[Fill (Within (First (Css ''form'')) (GetByPlaceholder ''Nome'')) ''John Doe'',
              Fill (Within (First (Css ''form'')) (GetByPlaceholder ''E-mail'')) ''john@example.com'',
              Fill (Within (First (Css ''form'')) (GetByPlaceholder ''Telefone'')) ''1234567890'',
              SelectOption (Css ''select'') (OptValueOrLabel ''retail''),
              Fill (Css ''textarea'') ''I need help with AI.'',
              Check (GetByRole Checkbox None),
              Click (GetByRole Button (Some ''Enviar mensagem''))]"
  let ?ls = "[GetByText ''Mensagem enviada com sucesso!'',
              GetByText (''ID P'' @ u_acute # ''blico: sub_generated_id'')]"
  let ?rest = "[screenshot A ''verification/contact_success.png'', print ''Contact Form Verified.'']"
  let ?s2 = "(log (Navigated ''http://localhost:4173/contact'')
               (log (Printed ''Navigating to Contact Page...'') s))\<lparr>page := Some d, clock := 0\<rparr>"
  have run: "contact_form A s =
      seqs (map (interact A) ?is @ map (\<lambda>l. expect_visible A l default_timeout) ?ls @ ?rest) ?s2"
    using assms Inr by (auto simp: contact_form_def print_def goto_def on_page_def log_def)
  have pg: "page ?s2 = Some d" and rt: "routes ?s2 = rs" using assms by (auto simp: log_def)
  show ?thesis
  proof (cases "performs A d (route_fetch rs) ?is")
    case None
    with Inr show ?thesis by (simp only: run seqs_interacts_exc [OF pg] rt) simp
  next
    case (Some d')
    let ?s3 = "?s2\<lparr>page := Some d', clock := (if ?is = [] then clock ?s2 else 0),
                    trace := trace ?s2 @ map Performed ?is\<rparr>"
    have pg3: "page ?s3 \<noteq> None" by simp
    have "is_exc (contact_form A s) \<longleftrightarrow>
          is_exc (seqs (map (\<lambda>l. expect_visible A l default_timeout) ?ls @ ?rest) ?s3)"
      using Some by (simp only: run seqs_interacts_exc [OF pg] rt option.case)
    also have "\<dots> \<longleftrightarrow> (case checks_pass A d' 0 ?ls default_timeout of
                        None \<Rightarrow> True
                      | Some c \<Rightarrow> \<not> writable A ''verification/contact_success.png'')"
      by (simp only: seqs_expects [OF pg3])
        (simp add: screenshot_def print_def on_page_def log_def split: option.split)
    finally show ?thesis using Inr Some by (simp split: option.split)
  qed
qed

lemma transparency_sections_frame:
  "no_return (transparency_page A)" "no_return (contact_form A)" "no_return (leads_manager A)"
  "preserves (\<lambda>s. page s \<noteq> None \<and> routes s = rs) (transparency_page A)"
  "preserves (\<lambda>s. page s \<noteq> None \<and> routes s = rs) (contact_form A)"
  "preserves (\<lambda>s. page s \<noteq> None \<and> routes s = rs) (leads_manager A)"
  by (simp_all del: not_None_eq add: transparency_sections no_return_seqs no_return_calls
      preserves_conj preserves_seqs preserves_page_calls preserves_routes_calls)

lemma transparency_main_exc:
  "is_exc (transparency_main A) \<longleftrightarrow>
   \<not> can_launch A \<or>
   is_exc (seqs [transparency_page A, contact_form A, leads_manager A]
             \<lparr>driver = True, browser = True, page = Some (blank A), clock = 0,
              routes = [(''**/api/leads'', leads_handler), (''**/api/submissions'', submissions_handler)],
              trace = [PwStarted, Launched, ContextOpened, PageOpened,
                       Routed ''**/api/submissions'', Routed ''**/api/leads'']\<rparr>)"
proof (cases "can_launch A")
  case False
  then show ?thesis
    by (simp add: transparency_main_def with_playwright_def with_stmt_def call_fn_def run_unfold
        transparency_setup_fail)
next
  case launch: True
  let ?body = "seqs [transparency_page A, contact_form A, leads_manager A]"
  let ?s1 = "\<lparr>driver = True, browser = True, page = Some (blank A), clock = 0,
               routes = [(''**/api/leads'', leads_handler), (''**/api/submissions'', submissions_handler)],
               trace = [PwStarted, Launched, ContextOpened, PageOpened,
                        Routed ''**/api/submissions'', Routed ''**/api/leads'']\<rparr>"
  note main = transparency_main_launched [OF launch]
  show ?thesis
  proof (cases "?body ?s1")
    case (Ok s2)
    with launch main show ?thesis
      by (simp add: try_except_finally_def try_except_def run_finally_def browser_close_def
          call_fn_is_exc del: seqs.simps)
  next
    case (Ret s2)
    with transparency_body_no_return [of A] show ?thesis unfolding no_return_def by blast
  next
    case (Exc e0 s2)
    have "page (final (?body ?s1)) \<noteq> None"
      by (rule preservesD [OF transparency_body_page]) simp
    with Exc obtain d where d: "page s2 = Some d" by auto
    from transparency_except_path [of ?body ?s1, OF Exc d] obtain e s3 where
      "try_except_finally ?body (transparency_error A) browser_close ?s1 = Exc e s3"
      by blast
    with launch main Exc show ?thesis by (simp add: call_fn_def del: seqs.simps)
  qed
qed

lemma transparency_body_exc:
  assumes "page s \<noteq> None \<and> routes s = rs"
  shows "is_exc (seqs [transparency_page A, contact_form A, leads_manager A] s) \<longleftrightarrow>
   \<not> ((case nav A ''http://localhost:4173/transparencia'' (route_fetch rs) of
         Inl msg \<Rightarrow> False
       | Inr d \<Rightarrow>
           (case poll (\<lambda>t. shown A d t (GetByText (''Transpar'' @ e_circ # ''ncia Xperience'')))
                   poll_intervals 10000 0 of
              None \<Rightarrow> False
            | Some c \<Rightarrow> poll (\<lambda>t. shown A d t (GetByText ''Test Message Public View''))
                          poll_intervals (c + default_timeout) c \<noteq> None) \<and>
           writable A ''verification/transparency_page.png'') \<and>
      (case nav A ''http://localhost:4173/contact'' (route_fetch rs) of
         Inl msg \<Rightarrow> False
       | Inr d \<Rightarrow>
           (case performs A d (route_fetch rs)
                   [Fill (Within (First (Css ''form'')) (GetByPlaceholder ''Nome'')) ''John Doe'',
                    Fill (Within (First (Css ''form'')) (GetByPlaceholder ''E-mail'')) ''john@example.com'',
                    Fill (Within (First (Css ''form'')) (GetByPlaceholder ''Telefone'')) ''1234567890'',
                    SelectOption (Css ''select'') (OptValueOrLabel ''retail''),
                    Fill (Css ''textarea'') ''I need help with AI.'',
                    Check (GetByRole Checkbox None),
                    Click (GetByRole Button (Some ''Enviar mensagem''))] of
              None \<Rightarrow> False
            | Some d' \<Rightarrow>
                checks_pass A d' 0 [GetByText ''Mensagem enviada com sucesso!'',
                                    GetByText (''ID P'' @ u_acute # ''blico: sub_generated_id'')]
                  default_timeout \<noteq> None \<and>
                writable A ''verification/contact_success.png'')) \<and>
      (case nav A ''http://localhost:4173/leads'' (route_fetch rs) of
         Inl msg \<Rightarrow> False
       | Inr d \<Rightarrow>
           checks_pass A d 0 [GetByText (''Gerenciador de Submiss'' @ o_tilde # ''es''),
                              GetByText ''sub_123''] default_timeout \<noteq> None \<and>
           writable A ''verification/leads_manager.png''))"
  by (rule seqs_Cons_is_exc [OF transparency_sections_frame(1,4) assms],
      erule transparency_page_exc,
      rule seqs_Cons_is_exc [OF transparency_sections_frame(2,5)], assumption,
      erule contact_form_exc,
      simp only: seqs_single, erule leads_manager_exc)

text \<open>Nor does the transparency flow, on any path.\<close>

lemma transparency_no_idle: "LoadIdle \<notin> set (trace (final (transparency_main A)))"
proof -
  have "emits (\<lambda>e. e \<noteq> LoadIdle) (run A)"
    by (simp add: run_def emits_seqs emits_calls transparency_setup_def transparency_sections
        transparency_error_def emits_try_except_finally emits_raise)
  from emits_all [OF emits_call_fn [OF this], of "log PwStarted ((init_st :: 'a st)\<lparr>driver := True\<rparr>)"]
  show ?thesis
    by (auto simp add: transparency_main_def with_playwright_final log_def init_st_def simp del: seqs.simps)
qed

text \<open>C6. Resource release in the transparency flow: once the browser has been
  launched, \<open>browser.close()\<close> runs on every exit path (the \<open>finally\<close> block),
  and the browser is closed and the driver stopped at the end of every run.\<close>

theorem transparency_cleanup:
  "\<not> driver (final (transparency_main A)) \<and> \<not> browser (final (transparency_main A)) \<and>
   (BrowserClosed \<in> set (trace (final (transparency_main A))) \<longleftrightarrow> can_launch A)"
proof (cases "can_launch A")
  case False
  then show ?thesis
    by (simp add: transparency_main_def with_playwright_def with_stmt_final call_fn_final
        run_unfold transparency_setup_fail init_st_def log_def)
next
  case True
  then show ?thesis
    by (simp add: transparency_main_def with_playwright_def with_stmt_final call_fn_final
        run_unfold transparency_setup_run try_except_finally_def final_run_finally
        browser_close_def init_st_def log_def)
qed

text \<open>C7. The failure path of the transparency flow: when setup succeeds and a
  check (or any call) of the \<open>try\<close> body raises \<open>e0\<close>, the flow prints the error,
  attempts the diagnostic screenshot, closes the browser and stops the driver,
  in that order, and the exception that escapes the script is \<open>e0\<close> itself (the
  \<open>raise e\<close> of the \<open>except\<close> block) when the screenshot is written, and the
  screenshot's own error when it is not.\<close>

theorem transparency_failure_reraised:
  assumes set_up: "transparency_setup A (log PwStarted (init_st\<lparr>driver := True\<rparr>)) = Ok s1"
    and fail: "seqs [transparency_page A, contact_form A, leads_manager A] s1 = Exc e0 s2"
  shows "\<exists>s. transparency_main A =
               Exc (if writable A ''verification/error.png'' then e0
                    else PwError (''EACCES: permission denied, open '' @ ''verification/error.png'')) s \<and>
             trace s = trace s2 @ Printed (''Verification failed: '' @ exn_str e0) #
               (if writable A ''verification/error.png'' then [Shot ''verification/error.png''] else []) @
               [BrowserClosed, PwStopped]"
proof -
  have launch: "can_launch A"
    using set_up by (cases "can_launch A") (simp_all add: transparency_setup_fail)
  have s1: "s1 = \<lparr>driver = True, browser = True, page = Some (blank A), clock = 0,
              routes = [(''**/api/leads'', leads_handler), (''**/api/submissions'', submissions_handler)],
              trace = [PwStarted, Launched, ContextOpened, PageOpened,
                       Routed ''**/api/submissions'', Routed ''**/api/leads'']\<rparr>"
    using set_up by (simp add: transparency_setup_run launch init_st_def log_def)
  have "is_exc (transparency_main A)"
    using fail by (simp only: transparency_main_exc s1) simp
  then obtain e s where exc: "transparency_main A = Exc e s"
    by (cases "transparency_main A") simp_all
  from transparency_failure_trace [OF launch exc] fail s1 exc show ?thesis by auto
qed

theorem transparency_failure_reraised_witness:
  "\<exists>s. transparency_main
         \<lparr>can_launch = True, blank = (), nav = (\<lambda>u f. Inl ''net::ERR_CONNECTION_REFUSED''),
          settle = (\<lambda>d f. Some d), shown = (\<lambda>d t l. True), perform = (\<lambda>d f i. Some d),
          writable = (\<lambda>p. True)\<rparr> =
       Exc (PwError ''net::ERR_CONNECTION_REFUSED'') s \<and>
       trace s = [PwStarted, Launched, ContextOpened, PageOpened, Routed ''**/api/submissions'',
                  Routed ''**/api/leads'', Printed ''Navigating to Transparency Page...'',
                  Navigated ''http://localhost:4173/transparencia'',
                  Printed ''Verification failed: net::ERR_CONNECTION_REFUSED'',
                  Shot ''verification/error.png'', BrowserClosed, PwStopped]"
  using transparency_failure_reraised
    [of "\<lparr>can_launch = True, blank = (), nav = (\<lambda>u f. Inl ''net::ERR_CONNECTION_REFUSED''),
          settle = (\<lambda>d f. Some d), shown = (\<lambda>d t l. True), perform = (\<lambda>d f i. Some d),
          writable = (\<lambda>p. True)\<rparr>"
        "\<lparr>driver = True, browser = True, page = Some (), clock = 0,
          routes = [(''**/api/leads'', leads_handler), (''**/api/submissions'', submissions_handler)],
          trace = [PwStarted, Launched, ContextOpened, PageOpened,
                   Routed ''**/api/submissions'', Routed ''**/api/leads'']\<rparr>"
        "PwError ''net::ERR_CONNECTION_REFUSED''"
        "\<lparr>driver = True, browser = True, page = Some (), clock = 0,
          routes = [(''**/api/leads'', leads_handler), (''**/api/submissions'', submissions_handler)],
          trace = [PwStarted, Launched, ContextOpened, PageOpened,
                   Routed ''**/api/submissions'', Routed ''**/api/leads'',
                   Printed ''Navigating to Transparency Page...'',
                   Navigated ''http://localhost:4173/transparencia'']\<rparr>"]
  by (simp add: transparency_setup_run init_st_def log_def transparency_page_def print_def goto_def
      on_page_def)

text \<open>C8. The mocked API: from setup to the end of the run the page's route
  table answers every request whose URL ends with \<open>/api/leads\<close> with the leads
  mock and every request whose URL ends with \<open>/api/submissions\<close> with the
  submissions mock, whatever its method or body, and sends every other request
  to the backend; a URL with a query string after the path is not matched.\<close>

theorem transparency_mocks:
  "can_launch A \<Longrightarrow>
   route_fetch (routes (final (transparency_main A))) r =
     (if ends_with ''/api/leads'' (req_url r) then Fulfilled leads_mock
      else if ends_with ''/api/submissions'' (req_url r) then Fulfilled submissions_mock
      else Backend r)"
  by (simp only: transparency_routes_final transparency_dispatch)

theorem transparency_mocks_witness:
  "route_fetch (routes (final (transparency_main (xperience_app False 0 True (\<lambda>p. True)))))
      \<lparr>req_method = ''POST'', req_url = ''http://localhost:4173/api/leads'',
       post_data = Some ''{}''\<rparr> = Fulfilled leads_mock \<and>
   route_fetch (routes (final (transparency_main (xperience_app False 0 True (\<lambda>p. True)))))
      \<lparr>req_method = ''GET'', req_url = ''http://localhost:4173/api/submissions?page=2'',
       post_data = None\<rparr> =
     Backend \<lparr>req_method = ''GET'', req_url = ''http://localhost:4173/api/submissions?page=2'',
       post_data = None\<rparr>"
  using transparency_mocks [of "xperience_app False 0 True (\<lambda>p. True)"]
  by (simp add: xperience_app_def ends_with_def)

text \<open>C9. The transparency page's title check: when navigation to the page
  succeeds and its title is shown from some time \<open>t0 \<le> 9000\<close> ms after the load
  on, the check with its explicit 10000 ms timeout passes, and the flow reaches
  the check of the mocked submission (it has no load-state wait in between, so
  the title may appear late).  With the default 5000 ms it would fail for every
  \<open>t0 > 5000\<close>.\<close>

theorem transparency_title_within:
  assumes "page s \<noteq> None"
    and "nav A ''http://localhost:4173/transparencia'' (route_fetch (routes s)) = Inr d"
    and "\<forall>t\<ge>t0. shown A d t (GetByText (''Transpar'' @ e_circ # ''ncia Xperience''))"
    and "t0 \<le> 9000"
  shows "Expected (GetByText ''Test Message Public View'') default_timeout
           \<in> set (trace (final (transparency_page A s)))"
proof -
  let ?title = "GetByText (''Transpar'' @ e_circ # ''ncia Xperience'')"
  obtain t where t: "poll (\<lambda>t. shown A d t ?title) poll_intervals 10000 0 = Some t"
    using poll_stable [of poll_intervals 1000 t0 "\<lambda>t. shown A d t ?title" 10000 0]
      poll_intervals_bounds assms(3,4)
    by (auto simp: poll_intervals_def)
  let ?s1 = "(log (Expected ?title 10000)
               ((log (Navigated ''http://localhost:4173/transparencia'')
                  (log (Printed ''Navigating to Transparency Page...'') s))
                \<lparr>page := Some d, clock := 0\<rparr>))\<lparr>clock := t\<rparr>"
  have pre: "seqs [print ''Navigating to Transparency Page...'',
                   goto A ''http://localhost:4173/transparencia'',
                   expect_visible A ?title 10000] s = Ok ?s1"
    using assms(1,2) t by (auto simp: print_def goto_def expect_visible_apply on_page_def log_def)
  have post: "\<forall>g\<in>set [screenshot A ''verification/transparency_page.png'',
                       print ''Transparency Page Verified.'']. emits (\<lambda>_. True) g"
    by (simp add: emits_calls)
  have "Expected (GetByText ''Test Message Public View'') default_timeout
          \<in> set (trace (final (expect_visible A (GetByText ''Test Message Public View'')
                                  default_timeout ?s1)))"
    by (simp add: expect_visible_apply log_def split: option.split)
  from seqs_prefix_tail_in
      [where f = "expect_visible A (GetByText ''Test Message Public View'') default_timeout",
       OF pre post this]
  show ?thesis
    by (simp add: transparency_page_def)
qed

theorem transparency_title_within_witness:
  "Expected (GetByText ''Test Message Public View'') default_timeout
     \<in> set (trace (final (transparency_page
          \<lparr>can_launch = True, blank = (), nav = (\<lambda>u f. Inr ()), settle = (\<lambda>d f. Some d),
           shown = (\<lambda>d t l. 8000 \<le> t), perform = (\<lambda>d f i. Some d), writable = (\<lambda>p. True)\<rparr>
          (init_st\<lparr>page := Some ()\<rparr>))))"
  using transparency_title_within
    [of "init_st\<lparr>page := Some ()\<rparr>"
        "\<lparr>can_launch = True, blank = (), nav = (\<lambda>u f. Inr ()), settle = (\<lambda>d f. Some d),
          shown = (\<lambda>d t l. 8000 \<le> t), perform = (\<lambda>d f i. Some d), writable = (\<lambda>p. True)\<rparr>"
        "()" 8000]
  by simp

text \<open>C10. The transparency flow's contract: it passes (no exception escapes
  and the script exits with status 0) exactly when the browser launches and,
  with the two mocks routed, the transparency page loads, shows its title within
  10000 ms and then the mocked message within the default 5000 ms, and its
  screenshot is written; the contact page loads, the seven form actions succeed
  in order, the success message and the mocked public id are shown in turn, and
  its screenshot is written; and the leads page loads, shows its title and the
  mocked submission id in turn, and its screenshot is written.\<close>

theorem transparency_contract:
  "\<not> is_exc (transparency_main A) \<longleftrightarrow>
   can_launch A \<and>
   (case nav A ''http://localhost:4173/transparencia'' (route_fetch [(''**/api/leads'', leads_handler), (''**/api/submissions'', submissions_handler)]) of
      Inl msg \<Rightarrow> False
    | Inr d \<Rightarrow>
        (case poll (\<lambda>t. shown A d t (GetByText (''Transpar'' @ e_circ # ''ncia Xperience'')))
                poll_intervals 10000 0 of
           None \<Rightarrow> False
         | Some c \<Rightarrow> poll (\<lambda>t. shown A d t (GetByText ''Test Message Public View''))
                       poll_intervals (c + default_timeout) c \<noteq> None) \<and>
        writable A ''verification/transparency_page.png'') \<and>
   (case nav A ''http://localhost:4173/contact'' (route_fetch [(''**/api/leads'', leads_handler), (''**/api/submissions'', submissions_handler)]) of
      Inl msg \<Rightarrow> False
    | Inr d \<Rightarrow>
        (case performs A d (route_fetch [(''**/api/leads'', leads_handler), (''**/api/submissions'', submissions_handler)])
                [Fill (Within (First (Css ''form'')) (GetByPlaceholder ''Nome'')) ''John Doe'',
                 Fill (Within (First (Css ''form'')) (GetByPlaceholder ''E-mail'')) ''john@example.com'',
                 Fill (Within (First (Css ''form'')) (GetByPlaceholder ''Telefone'')) ''1234567890'',
                 SelectOption (Css ''select'') (OptValueOrLabel ''retail''),
                 Fill (Css ''textarea'') ''I need help with AI.'',
                 Check (GetByRole Checkbox None),
                 Click (GetByRole Button (Some ''Enviar mensagem''))] of
           None \<Rightarrow> False
         | Some d' \<Rightarrow>
             checks_pass A d' 0 [GetByText ''Mensagem enviada com sucesso!'',
                                 GetByText (''ID P'' @ u_acute # ''blico: sub_generated_id'')]
               default_timeout \<noteq> None \<and>
             writable A ''verification/contact_success.png'')) \<and>
   (case nav A ''http://localhost:4173/leads'' (route_fetch [(''**/api/leads'', leads_handler), (''**/api/submissions'', submissions_handler)]) of
      Inl msg \<Rightarrow> False
    | Inr d \<Rightarrow>
        checks_pass A d 0 [GetByText (''Gerenciador de Submiss'' @ o_tilde # ''es''),
                           GetByText ''sub_123''] default_timeout \<noteq> None \<and>
        writable A ''verification/leads_manager.png'')"
proof -
  have "is_exc (seqs [transparency_page A, contact_form A, leads_manager A]
             \<lparr>driver = True, browser = True, page = Some (blank A), clock = 0,
              routes = [(''**/api/leads'', leads_handler), (''**/api/submissions'', submissions_handler)],
              trace = [PwStarted, Launched, ContextOpened, PageOpened,
                       Routed ''**/api/submissions'', Routed ''**/api/leads'']\<rparr>) \<longleftrightarrow>
        \<not> ((case nav A ''http://localhost:4173/transparencia'' (route_fetch [(''**/api/leads'', leads_handler), (''**/api/submissions'', submissions_handler)]) of
           Inl msg \<Rightarrow> False
         | Inr d \<Rightarrow>
             (case poll (\<lambda>t. shown A d t (GetByText (''Transpar'' @ e_circ # ''ncia Xperience'')))
                     poll_intervals 10000 0 of
                None \<Rightarrow> False
              | Some c \<Rightarrow> poll (\<lambda>t. shown A d t (GetByText ''Test Message Public View''))
                            poll_intervals (c + default_timeout) c \<noteq> None) \<and>
             writable A ''verification/transparency_page.png'') \<and>
        (case nav A ''http://localhost:4173/contact'' (route_fetch [(''**/api/leads'', leads_handler), (''**/api/submissions'', submissions_handler)]) of
           Inl msg \<Rightarrow> False
         | Inr d \<Rightarrow>
             (case performs A d (route_fetch [(''**/api/leads'', leads_handler), (''**/api/submissions'', submissions_handler)])
                     [Fill (Within (First (Css ''form'')) (GetByPlaceholder ''Nome'')) ''John Doe'',
                      Fill (Within (First (Css ''form'')) (GetByPlaceholder ''E-mail'')) ''john@example.com'',
                      Fill (Within (First (Css ''form'')) (GetByPlaceholder ''Telefone'')) ''1234567890'',
                      SelectOption (Css ''select'') (OptValueOrLabel ''retail''),
                      Fill (Css ''textarea'') ''I need help with AI.'',
                      Check (GetByRole Checkbox None),
                      Click (GetByRole Button (Some ''Enviar mensagem''))] of
                None \<Rightarrow> False
              | Some d' \<Rightarrow>
                  checks_pass A d' 0 [GetByText ''Mensagem enviada com sucesso!'',
                                      GetByText (''ID P'' @ u_acute # ''blico: sub_generated_id'')]
                    default_timeout \<noteq> None \<and>
                  writable A ''verification/contact_success.png'')) \<and>
        (case nav A ''http://localhost:4173/leads'' (route_fetch [(''**/api/leads'', leads_handler), (''**/api/submissions'', submissions_handler)]) of
           Inl msg \<Rightarrow> False
         | Inr d \<Rightarrow>
             checks_pass A d 0 [GetByText (''Gerenciador de Submiss'' @ o_tilde # ''es''),
                                GetByText ''sub_123''] default_timeout \<noteq> None \<and>
             writable A ''verification/leads_manager.png''))"
    by (rule transparency_body_exc) simp
  then show ?thesis unfolding transparency_main_exc by blast
qed

text \<open>C11. The diagnostic screenshot: \<open>verification/error.png\<close> is written
  exactly on the runs that fail after the browser launched (and where the file
  can be written); a passing run writes only its three success screenshots.\<close>

theorem transparency_error_shot:
  "Shot ''verification/error.png'' \<in> set (trace (final (transparency_main A))) \<longleftrightarrow>
   can_launch A \<and> is_exc (transparency_main A) \<and> writable A ''verification/error.png''"
proof (cases "can_launch A")
  case False
  then show ?thesis
    by (simp add: transparency_main_def with_playwright_def with_stmt_def call_fn_def run_unfold
        transparency_setup_fail init_st_def log_def)
next
  case launch: True
  let ?body = "seqs [transparency_page A, contact_form A, leads_manager A]"
  let ?s1 = "\<lparr>driver = True, browser = True, page = Some (blank A), clock = 0,
               routes = [(''**/api/leads'', leads_handler), (''**/api/submissions'', submissions_handler)],
               trace = [PwStarted, Launched, ContextOpened, PageOpened,
                        Routed ''**/api/submissions'', Routed ''**/api/leads'']\<rparr>"
  obtain evs where evs: "trace (final (?body ?s1)) = trace ?s1 @ evs"
      "\<forall>e\<in>set evs. e \<noteq> Shot ''verification/error.png''"
    using emits_final [OF transparency_body_no_error_shot] by blast
  show ?thesis
  proof (cases "is_exc (transparency_main A)")
    case True
    then obtain e s where exc: "transparency_main A = Exc e s"
      by (cases "transparency_main A") simp_all
    from transparency_failure_trace [OF launch exc] obtain e0 s2 where
      b: "?body ?s1 = Exc e0 s2" and
      t: "trace s = trace s2 @ Printed (''Verification failed: '' @ exn_str e0) #
            (if writable A ''verification/error.png'' then [Shot ''verification/error.png''] else []) @
            [BrowserClosed, PwStopped]"
      by blast
    from evs(1) [unfolded b final.simps] evs(2)
    have "Shot ''verification/error.png'' \<notin> set (trace s2)" by auto
    with exc t launch show ?thesis by auto
  next
    case False
    from transparency_success [OF False] obtain s2 where
      b: "?body ?s1 = Ok s2" and
      t: "trace (final (transparency_main A)) = trace s2 @ [BrowserClosed, PwStopped]"
      by blast
    from evs(1) [unfolded b final.simps] evs(2)
    have "Shot ''verification/error.png'' \<notin> set (trace s2)" by auto
    with t False show ?thesis by simp
  qed
qed

end
