(* ===== verification/FlowShape.thy ===== *)
theory FlowShape
  imports Playwright
begin

text \<open>
  The state machine spec.md (section 4.3) gives as the shape shared by the three
  flows:
  \<open>Start \<rightarrow> Navigate \<rightarrow> WaitNetworkIdle \<rightarrow> Assert* \<rightarrow> [Interact \<rightarrow>
  WaitForTransition \<rightarrow> Assert*]* \<rightarrow> Capture \<rightarrow> End\<close>.
  It is read over the observable events of a run's trace: a navigation, a
  wait for the load state, a visibility assertion, an interaction and a
  screenshot; printed lines, setup and teardown are not steps of it.  The machine
  is an inductive step relation \<open>spec_step\<close>, closed under sequences by
  \<open>spec_steps\<close>; a trace conforms when its observable events lead from \<open>Start\<close>
  to \<open>Capture\<close>, after which the run ends.  \<open>spec_next\<close> and \<open>spec_run\<close> are the
  same machine as executable functions, proved equivalent, so conformance of a
  concrete trace is decided by evaluation.
\<close>

datatype phase =
    Start | Navigate | WaitNetworkIdle | Assert | Interact | WaitForTransition | Capture

text \<open>The phases after which \<open>Assert*\<close> may continue, an interaction may start or
  the capture may be taken.\<close>

fun settled :: "phase \<Rightarrow> bool" where
  "settled WaitNetworkIdle = True"
| "settled Assert = True"
| "settled WaitForTransition = True"
| "settled _ = False"

fun observable :: "event \<Rightarrow> bool" where
  "observable (Navigated u) = True"
| "observable LoadIdle = True"
| "observable (Expected l t) = True"
| "observable (Performed i) = True"
| "observable (Shot p) = True"
| "observable _ = False"

inductive spec_step :: "phase \<Rightarrow> event \<Rightarrow> phase \<Rightarrow> bool" where
  navigate: "spec_step Start (Navigated u) Navigate"
| idle: "spec_step Navigate LoadIdle WaitNetworkIdle"
| assert: "settled p \<Longrightarrow> spec_step p (Expected l t) Assert"
| interact: "settled p \<Longrightarrow> spec_step p (Performed i) Interact"
| transition: "spec_step Interact LoadIdle WaitForTransition"
| capture: "settled p \<Longrightarrow> spec_step p (Shot f) Capture"

inductive spec_steps :: "phase \<Rightarrow> event list \<Rightarrow> phase \<Rightarrow> bool" where
  refl: "spec_steps p [] p"
| step: "spec_step p e q \<Longrightarrow> spec_steps q es r \<Longrightarrow> spec_steps p (e # es) r"

code_pred spec_step .

code_pred spec_steps .

definition spec_conforms :: "event list \<Rightarrow> bool" where
  "spec_conforms tr \<longleftrightarrow> spec_steps Start (filter observable tr) Capture"

text \<open>The machine as a function: it is deterministic.\<close>

fun spec_next :: "phase \<Rightarrow> event \<Rightarrow> phase option" where
  "spec_next Start (Navigated u) = Some Navigate"
| "spec_next Navigate LoadIdle = Some WaitNetworkIdle"
| "spec_next Interact LoadIdle = Some WaitForTransition"
| "spec_next p (Expected l t) = (if settled p then Some Assert else None)"
| "spec_next p (Performed i) = (if settled p then Some Interact else None)"
| "spec_next p (Shot f) = (if settled p then Some Capture else None)"
| "spec_next p e = None"

fun spec_run :: "phase \<Rightarrow> event list \<Rightarrow> phase option" where
  "spec_run p [] = Some p"
| "spec_run p (e # es) = (case spec_next p e of None \<Rightarrow> None | Some q \<Rightarrow> spec_run q es)"

inductive_simps spec_step_simps: "spec_step p e q"

inductive_simps spec_steps_Nil: "spec_steps p [] q"

inductive_simps spec_steps_Cons: "spec_steps p (e # es) q"

lemma spec_step_next: "spec_step p e q \<longleftrightarrow> spec_next p e = Some q"
  by (cases p; cases e) (auto simp: spec_step_simps)

text \<open>Refinement: the executable run computes exactly the relation.\<close>

lemma spec_steps_run: "spec_steps p es q \<longleftrightarrow> spec_run p es = Some q"
  by (induction es arbitrary: p)
    (auto simp: spec_steps_Nil spec_steps_Cons spec_step_next split: option.split)

lemma spec_conforms_run: "spec_conforms tr \<longleftrightarrow> spec_run Start (filter observable tr) = Some Capture"
  by (simp add: spec_conforms_def spec_steps_run)

lemma spec_run_append:
  "spec_run p (xs @ ys) = (case spec_run p xs of None \<Rightarrow> None | Some q \<Rightarrow> spec_run q ys)"
  by (induction xs arbitrary: p) (simp_all split: option.split)

text \<open>Where a run leaves the machine: after the capture nothing may follow, and
  after a navigation only the wait for the network to be idle.\<close>

lemma spec_next_Capture [simp]: "spec_next Capture e = None"
  by (cases e) simp_all

lemma spec_run_Capture_Cons: "spec_run Capture (e # es) = None"
  by simp

lemma spec_run_Navigate_Cons: "e \<noteq> LoadIdle \<Longrightarrow> spec_run Navigate (e # es) = None"
  by (cases e) simp_all

text \<open>Three ways a trace fails the machine: it never waits for the load state
  (the settled phases, and with them the capture, are reached only through
  \<open>WaitNetworkIdle\<close>); it never takes a screenshot (only a capture enters
  \<open>Capture\<close>); or an observable event follows a screenshot.\<close>

lemma spec_run_no_idle:
  "LoadIdle \<notin> set xs \<Longrightarrow> p = Start \<or> p = Navigate \<Longrightarrow>
   spec_run p xs = None \<or> spec_run p xs = Some Start \<or> spec_run p xs = Some Navigate"
proof (induction xs arbitrary: p)
  case (Cons e es)
  then have es: "LoadIdle \<notin> set es" and e: "e \<noteq> LoadIdle" by auto
  from Cons.prems(2) show ?case
  proof
    assume "p = Start"
    with Cons.IH [OF es, of Navigate] e show ?case by (cases e) simp_all
  next
    assume "p = Navigate"
    with e show ?case by (cases e) simp_all
  qed
qed simp

lemma spec_conforms_no_idle: "LoadIdle \<notin> set tr \<Longrightarrow> \<not> spec_conforms tr"
  using spec_run_no_idle [of "filter observable tr" Start] by (auto simp: spec_conforms_run)

lemma spec_run_no_shot:
  "\<forall>f. Shot f \<notin> set xs \<Longrightarrow> p \<noteq> Capture \<Longrightarrow> spec_run p xs \<noteq> Some Capture"
proof (induction xs arbitrary: p)
  case (Cons e es)
  then show ?case by (cases p; cases e) (auto split: option.split)
qed simp

lemma spec_conforms_no_shot: "\<forall>f. Shot f \<notin> set tr \<Longrightarrow> \<not> spec_conforms tr"
  using spec_run_no_shot [of "filter observable tr" Start] by (auto simp: spec_conforms_run)

lemma spec_run_Shot_Cons: "spec_run p (Shot f # e # es) = None"
  by (cases p) (simp_all add: spec_run_Capture_Cons)

lemma spec_conforms_shot_then:
  assumes "tr = as @ Shot f # bs @ e # cs" and "observable e"
  shows "\<not> spec_conforms tr"
proof -
  have "filter observable tr = filter observable as @ Shot f # (filter observable bs @ e # filter observable cs)"
    using assms by simp
  moreover obtain e' es where "filter observable bs @ e # filter observable cs = e' # es"
    by (cases "filter observable bs") auto
  ultimately show ?thesis
    by (simp add: spec_conforms_run spec_run_append spec_run_Shot_Cons split: option.split)
qed

text \<open>The machine is deterministic, by rule inversion on both steps.\<close>

lemma spec_step_deterministic: "spec_step p e q \<Longrightarrow> spec_step p e q' \<Longrightarrow> q' = q"
  by (induction rule: spec_step.induct) (auto elim: spec_step.cases)

text \<open>The shape the specification describes is accepted: navigate, wait, assert,
  interact, wait, assert, capture, with printed lines in between.\<close>

lemma spec_conforms_shape_example:
  "spec_conforms [Navigated u, LoadIdle, Printed m, Expected l t, Performed i, LoadIdle,
                  Expected l' t', Shot f, BrowserClosed]"
  by (simp add: spec_conforms_def spec_steps_Cons spec_steps_Nil spec_step_simps)

end
