(* ===== verification/Spec2Isabelle.thy ===== *)
theory Spec2Isabelle
  imports Dashboard Agents Transparency FlowShape
begin

text \<open>
  \<^bold>\<open>A verification library for the Xperience end-to-end verification scripts.\<close>

  The program is three Python scripts under \<open>src/verification/\<close>, each a flat
  flow that drives a headless Chromium through Playwright's synchronous API
  against the running Xperience web application:
  \<^item> \<open>test_dashboard.py\<close> (\<open>verify_dashboard\<close>): open the dashboard, wait for
    the network to settle, check five section headings, screenshot, click
    "Agentes", check the agents page heading, close the browser;
  \<^item> \<open>verify_agents.py\<close> (\<open>verify_agents_flow\<close>): open the agents page (a
    navigation error is printed and the function returns), check the list
    view, choose the entry-point control by one \<open>is_visible()\<close> probe, open the
    creation dialog, fill and submit it, check the chat view, screenshot,
    close;
  \<^item> \<open>verify_transparency.py\<close> (\<open>run\<close>): register two mocked API routes, then
    inside \<open>try\<close>/\<open>except\<close>/\<open>finally\<close> check the transparency page, submit the
    contact form and check the leads manager; the \<open>except\<close> block prints,
    screenshots and re-raises, the \<open>finally\<close> block closes the browser.
  The flows share nothing but the library; each runs inside
  \<open>with sync_playwright()\<close>, whose exit stops the driver.  The model records
  the driver stopping (\<open>driver\<close> false, a \<open>PwStopped\<close> event) but not that
  Playwright's shutdown also ends the browser process: the \<open>browser\<close> field
  and the \<open>BrowserClosed\<close> event follow only the scripts' own
  \<open>browser.close()\<close> calls.

  \<^bold>\<open>Theories.\<close>
  \<^item> \<open>Prelude\<close>: the named theorem collections, the Latin-1 characters of the
    scripts' literals, and \<open>ends_with\<close> on strings with its lemmas.
  \<^item> \<open>Python\<close>: Python statements as functions from a state to an outcome
    (\<open>Ok\<close>, \<open>Ret\<close> for a pending \<open>return\<close>, \<open>Exc\<close> for a pending exception, each
    with the state reached), with sequencing \<open>seqs\<close>, \<open>try_except\<close>,
    \<open>try_except_finally\<close>, the \<open>with\<close> statement \<open>with_stmt\<close>, the call boundary
    \<open>call_fn\<close> and the process \<open>exit_status\<close>, following the language reference.
  \<^item> \<open>Glob\<close>: Playwright's URL glob patterns (\<open>**\<close>, \<open>*\<close>, \<open>?\<close>, escapes) as a
    tokenizer and a recursive matcher, proved equal to a language semantics
    (\<open>tok_match_lang\<close>); a pattern \<open>**\<close> followed by a literal matches exactly
    the URLs ending with that literal.
  \<^item> \<open>Network\<close>: requests, mocked responses (\<open>route.fulfill\<close>) and the page's
    route table, newest route first, as \<open>page.route\<close> registers them.
  \<^item> \<open>Playwright\<close>: the calls the scripts make (launch, new context and page,
    route, goto, wait for load state, \<open>expect(...).to_be_visible\<close>,
    \<open>is_visible\<close>, click/fill/select/check, screenshot, close, print) as
    statements on a state record \<open>'d st\<close> (driver running, browser open, the
    page's document, the time since the last load, the route table and a
    trace of events).  The application is a parameter \<open>'d app\<close>: how it
    navigates, settles, what it shows at each time and how it reacts to an
    action, and which screenshot paths are writable; every theorem about a flow
    holds for every application.  Framing lemmas (\<open>emits\<close>, \<open>no_return\<close>,
    \<open>preserves\<close>) and block lemmas (\<open>seqs_expects\<close> for a block of checks,
    \<open>seqs_interacts_exc\<close> for a block of actions, \<open>seqs_Cons_is_exc\<close> for
    composing sections that raise exactly when a condition fails) carry the
    flow proofs.  In this model the setup calls after a successful launch
    (\<open>new_context\<close>, \<open>new_page\<close>, \<open>page.route\<close>) do not fail.
  \<^item> \<open>Json\<close>: JSON values, the compact printing of the mock bodies and a
    fuel-bounded recursive-descent parser in the manner of \<open>JSON.parse\<close>, with
    the round trip (parse after print is the identity on well-formed values) and
    fuel adequacy (the fuel \<open>2 * length s + 1\<close> of \<open>json_parse\<close> finds every
    parse that any fuel finds, because the parser is monotone in fuel and each
    call sequence consumes input at least every second call).
  \<^item> \<open>Xperience\<close>: a reference application, modelled from spec.md because its
    code is not under src/: every page the scripts visit, with the public pages
    reading the API through the page's route table and parsing it as JSON.  It
    instantiates the theorems at concrete inputs (witnesses); no claim
    depends on it.
  \<^item> \<open>Dashboard\<close>, \<open>Agents\<close>, \<open>Transparency\<close>: the three scripts, statement by
    statement, with sections as definitions in the order of the code.
  \<^item> \<open>FlowShape\<close>: the flow state machine of spec.md section 4.3 as an
    inductive step relation over the observable events of a trace, with an
    executable version proved equivalent and the ways a trace leaves it.

  \<^bold>\<open>Timing.\<close>  \<open>to_be_visible\<close> polls: it probes at once and then after
  100, 250, 500 and 1000 ms, repeating 1000 ms, until the element is visible or
  the timeout (default 5000 ms, 10000 ms for the transparency title) has passed
  (\<open>poll\<close>, a total function by the measure deadline minus time).  Time is
  counted in ms from the last load or action; \<open>is_visible\<close> probes once, at the
  current time.  The poll lemmas show that a passing check saw the element
  within the bound and that an element visible from \<open>t0\<close> on is found by
  \<open>t0 + 1000\<close>; this is the bound the timing theorems use.

  \<^bold>\<open>Results.\<close>  The claims C1 to C13 of the flow theories and of this
  one:
  \<^item> resource release: the dashboard flow calls \<open>browser.close()\<close> exactly
    on passing runs (C1), the transparency flow on every path after launch
    (C6);
  \<^item> the exact pass condition of the dashboard flow (C2) and of the
    transparency flow (C10), over every application;
  \<^item> the agents flow's false pass on a navigation error, its single-probe
    choice of the entry control, the failure this probe causes when the button
    renders late, and its dependence on a hard-coded screenshot path (C3, C4,
    C5, C13);
  \<^item> the transparency flow's failure path: an exception of the \<open>try\<close> body is
    re-raised, or replaced by a failing screenshot's error (C7); its mock table
    and what it answers (C8); the timeout bound of its title check (C9); and
    its diagnostic screenshot written exactly on failed runs (C11);
  \<^item> across the scripts, that no run of any of them follows the
    specification's flow state machine (C12).

  \<^bold>\<open>Not modelled.\<close>  The rendering and DOM of the application (abstracted
  into \<open>shown\<close> and \<open>perform\<close>; \<open>get_by_text\<close> is read as an exact match), the
  JSON syntax the mock bodies do not use (negative, fractional and exponent
  numbers, \<open>\u\<close> escapes), the browser process and the files written (a
  screenshot is an event and the writable paths a parameter), and real-time
  scheduling beyond the polling intervals.  The scripts have no loops of their
  own; the only iteration is Playwright's polling, a total function.
\<close>

text \<open>C12. None of the three scripts follows the flow state machine of the
  specification (section 4.3), on any run and whatever the application does:
  the agents and transparency flows never wait for the load state after
  navigating, and the dashboard flow takes its screenshot before the
  interaction instead of at the end.\<close>

theorem flows_violate_spec_shape:
  "\<not> spec_conforms (trace (final (dashboard_main A))) \<and>
   \<not> spec_conforms (trace (final (agents_main A))) \<and>
   \<not> spec_conforms (trace (final (transparency_main A)))"
proof (intro conjI)
  from dashboard_shot_then_click [of A]
  show "\<not> spec_conforms (trace (final (dashboard_main A)))"
  proof
    assume "\<forall>f. Shot f \<notin> set (trace (final (dashboard_main A)))"
    then show ?thesis by (rule spec_conforms_no_shot)
  next
    assume "\<exists>as bs cs f. trace (final (dashboard_main A)) =
              as @ Shot f # bs @ Performed (Click (heading ''Agentes'')) # cs"
    then obtain as bs cs f where "trace (final (dashboard_main A)) =
        as @ Shot f # bs @ Performed (Click (heading ''Agentes'')) # cs" by blast
    then show ?thesis by (rule spec_conforms_shot_then) simp
  qed
  show "\<not> spec_conforms (trace (final (agents_main A)))"
    by (rule spec_conforms_no_idle [OF agents_no_idle])
  show "\<not> spec_conforms (trace (final (transparency_main A)))"
    by (rule spec_conforms_no_idle [OF transparency_no_idle])
qed

end
